theory Spec2Isabelle
  imports Complex_Main "HOL-Library.Log_Nat"
begin

section \<open>JavaScript numbers\<close>

text \<open>
  The derived-metric functions of GreenFlow compute on JavaScript Numbers: IEEE 754
  binary64 values. A finite Number is modelled by the rational it denotes, and the three
  special values are kept apart, because the code meets them: \<open>0 / 0\<close> is \<open>NaN\<close>,
  every comparison with \<open>NaN\<close> is false, and \<open>NaN\<close> is falsy. Every arithmetic
  operation rounds its exact result to the nearest binary64 value, a tie going to the
  even significand, with gradual underflow below \<open>2 powi - 1022\<close> and overflow to an
  infinity when the rounded value reaches \<open>2 ^ 1024\<close>. The sign of zero is not
  represented: no divisor in the code below can be a negative zero. The values of the
  model are all rationals; the binary64 values are those that \<open>nearest\<close> leaves
  unchanged.
\<close>

datatype jsnum = Num rat | PosInf | NegInf | NaN

text \<open>Rounding to the nearest integer, a tie going to the even one.\<close>

definition rne :: "rat \<Rightarrow> int" where
  "rne r =
     (let f = \<lfloor>r\<rfloor>; d = r - of_int f
      in if d < 1 / 2 then f else if 1 / 2 < d then f + 1 else if even f then f else f + 1)"

text \<open>
  The binary exponent of a positive rational: \<open>2 powi ilog2 x \<le> x < 2 powi (ilog2 x + 1)\<close>.
  It is found from the bit lengths of numerator and denominator.
\<close>

definition ilog2 :: "rat \<Rightarrow> int" where
  "ilog2 x =
     (let e = bitlen (fst (quotient_of x)) - bitlen (snd (quotient_of x))
      in if 2 powi e \<le> x then e else e - 1)"

text \<open>
  The spacing of the binary64 values around \<open>x\<close>: 52 binary places below the leading
  bit, and \<open>2 powi - 1074\<close> in the subnormal range.
\<close>

definition ulp :: "rat \<Rightarrow> rat" where
  "ulp x = 2 powi (max (ilog2 \<bar>x\<bar> - 52) (- 1074))"

definition nearest :: "rat \<Rightarrow> rat" where
  "nearest x = (if x = 0 then 0 else of_int (rne (x / ulp x)) * ulp x)"

definition overflow_threshold :: rat where
  "overflow_threshold = 2 ^ 1024"

text \<open>The binary64 value of an exact result.\<close>

definition fl :: "rat \<Rightarrow> jsnum" where
  "fl x =
     (let y = nearest x
      in if overflow_threshold \<le> y then PosInf
         else if y \<le> - overflow_threshold then NegInf
         else Num y)"

text \<open>A decimal literal of the source, such as \<open>0.15\<close>, denotes the nearest binary64 value.\<close>

definition lit :: "rat \<Rightarrow> rat" where
  "lit x = nearest x"

fun js_neg :: "jsnum \<Rightarrow> jsnum" where
  "js_neg (Num a) = Num (- a)"
| "js_neg PosInf = NegInf"
| "js_neg NegInf = PosInf"
| "js_neg NaN = NaN"

fun js_add :: "jsnum \<Rightarrow> jsnum \<Rightarrow> jsnum" where
  "js_add NaN _ = NaN"
| "js_add _ NaN = NaN"
| "js_add (Num a) (Num b) = fl (a + b)"
| "js_add PosInf NegInf = NaN"
| "js_add NegInf PosInf = NaN"
| "js_add PosInf _ = PosInf"
| "js_add _ PosInf = PosInf"
| "js_add NegInf _ = NegInf"
| "js_add _ NegInf = NegInf"

definition js_sub :: "jsnum \<Rightarrow> jsnum \<Rightarrow> jsnum" where
  "js_sub x y = js_add x (js_neg y)"

text \<open>Sign of a value that is not \<open>NaN\<close>: \<open>-1\<close>, \<open>0\<close> or \<open>1\<close>.\<close>

fun js_sign :: "jsnum \<Rightarrow> int" where
  "js_sign (Num a) = (if a < 0 then - 1 else if a = 0 then 0 else 1)"
| "js_sign PosInf = 1"
| "js_sign NegInf = - 1"
| "js_sign NaN = 0"

definition signed_inf :: "int \<Rightarrow> jsnum" where
  "signed_inf s = (if s < 0 then NegInf else PosInf)"

fun js_mul :: "jsnum \<Rightarrow> jsnum \<Rightarrow> jsnum" where
  "js_mul NaN _ = NaN"
| "js_mul _ NaN = NaN"
| "js_mul (Num a) (Num b) = fl (a * b)"
| "js_mul x y =
     (if js_sign x = 0 \<or> js_sign y = 0 then NaN else signed_inf (js_sign x * js_sign y))"

fun js_div :: "jsnum \<Rightarrow> jsnum \<Rightarrow> jsnum" where
  "js_div NaN _ = NaN"
| "js_div _ NaN = NaN"
| "js_div (Num a) (Num b) =
     (if b \<noteq> 0 then fl (a / b)
      else if a = 0 then NaN
      else signed_inf (js_sign (Num a)))"
| "js_div (Num a) _ = Num 0"
| "js_div x (Num b) = signed_inf (js_sign x * (if b < 0 then - 1 else 1))"
| "js_div _ _ = NaN"

fun js_lt :: "jsnum \<Rightarrow> jsnum \<Rightarrow> bool" where
  "js_lt NaN _ = False"
| "js_lt _ NaN = False"
| "js_lt (Num a) (Num b) = (a < b)"
| "js_lt _ NegInf = False"
| "js_lt NegInf _ = True"
| "js_lt PosInf _ = False"
| "js_lt _ PosInf = True"

fun js_le :: "jsnum \<Rightarrow> jsnum \<Rightarrow> bool" where
  "js_le NaN _ = False"
| "js_le _ NaN = False"
| "js_le (Num a) (Num b) = (a \<le> b)"
| "js_le NegInf _ = True"
| "js_le _ PosInf = True"
| "js_le _ _ = False"

definition js_gt :: "jsnum \<Rightarrow> jsnum \<Rightarrow> bool" where
  "js_gt x y = js_lt y x"

fun js_ge :: "jsnum \<Rightarrow> jsnum \<Rightarrow> bool" where
  "js_ge NaN _ = False"
| "js_ge _ NaN = False"
| "js_ge x y = (\<not> js_lt x y)"

text \<open>\<open>!x\<close> is true for \<open>0\<close> and \<open>NaN\<close> only.\<close>

fun truthy :: "jsnum \<Rightarrow> bool" where
  "truthy (Num a) = (a \<noteq> 0)"
| "truthy NaN = False"
| "truthy _ = True"

text \<open>\<open>x || d\<close> on Numbers.\<close>

definition js_or :: "jsnum \<Rightarrow> jsnum \<Rightarrow> jsnum" where
  "js_or x d = (if truthy x then x else d)"

text \<open>
  \<open>Math.round\<close>: the nearest integer, a tie going up. For a binary64 value the result is
  a binary64 value again.
\<close>

fun Math_round :: "jsnum \<Rightarrow> jsnum" where
  "Math_round (Num a) = Num (of_int \<lfloor>a + 1 / 2\<rfloor>)"
| "Math_round x = x"

fun Math_min :: "jsnum \<Rightarrow> jsnum \<Rightarrow> jsnum" where
  "Math_min NaN _ = NaN"
| "Math_min _ NaN = NaN"
| "Math_min x y = (if js_lt y x then y else x)"

fun Math_max :: "jsnum \<Rightarrow> jsnum \<Rightarrow> jsnum" where
  "Math_max NaN _ = NaN"
| "Math_max _ NaN = NaN"
| "Math_max x y = (if js_lt x y then y else x)"

text \<open>
  A field of a document that is absent reads as \<open>undefined\<close>: \<open>None\<close>. \<open>Number(undefined)\<close>
  and \<open>undefined\<close> in a comparison or in arithmetic are \<open>NaN\<close>, and \<open>undefined\<close> is falsy.
\<close>

definition Number :: "jsnum option \<Rightarrow> jsnum" where
  "Number v = (case v of None \<Rightarrow> NaN | Some x \<Rightarrow> x)"

definition falsy :: "jsnum option \<Rightarrow> bool" where
  "falsy v = (case v of None \<Rightarrow> True | Some x \<Rightarrow> \<not> truthy x)"

section \<open>Shipment: the carbon footprint calculator\<close>

text \<open>
  The shipment model: the schema's enums for \<open>transportMode\<close> and \<open>vehicleType\<close>, the
  fields the calculator reads, the table \<open>emissionFactors\<close> and the method
  \<open>calculateCarbonFootprint\<close>. A field is \<open>None\<close> when the document does not have it.
\<close>

datatype transportMode = Diesel | Electric | Hybrid | Rail | Ship | Air

datatype vehicleType = Truck | Van | Car | Train | ShipVehicle | Plane

record shipment =
  quantity :: "jsnum option"
  distanceKm :: "jsnum option"
  transportMode :: "transportMode option"
  vehicleType :: "vehicleType option"
  packagingWeight :: "jsnum option"

text \<open>
  The table \<open>emissionFactors\<close>: an entry is a number (rail, ship, air) or an object
  indexed by vehicle type.
\<close>

datatype factorEntry = Factor rat | ByVehicle "vehicleType \<rightharpoonup> rat"

definition emissionFactors :: "transportMode \<Rightarrow> factorEntry" where
  "emissionFactors m = (case m of
       Diesel \<Rightarrow>
         ByVehicle [Truck \<mapsto> lit (15 / 100), Van \<mapsto> lit (12 / 100), Car \<mapsto> lit (8 / 100)]
     | Electric \<Rightarrow>
         ByVehicle [Truck \<mapsto> lit (5 / 100), Van \<mapsto> lit (4 / 100), Car \<mapsto> lit (2 / 100)]
     | Hybrid \<Rightarrow>
         ByVehicle [Truck \<mapsto> lit (10 / 100), Van \<mapsto> lit (8 / 100), Car \<mapsto> lit (5 / 100)]
     | Rail \<Rightarrow> Factor (lit (3 / 100))
     | Ship \<Rightarrow> Factor (lit (2 / 100))
     | Air \<Rightarrow> Factor (lit (50 / 100)))"

text \<open>
  \<open>emissionFactors[transportMode]?.[vehicleType]\<close>: indexing a number gives
  \<open>undefined\<close>, as does a vehicle type the object has no entry for.
\<close>

definition vehicleFactor :: "transportMode \<Rightarrow> vehicleType \<Rightarrow> rat option" where
  "vehicleFactor m v = (case emissionFactors m of Factor _ \<Rightarrow> None | ByVehicle t \<Rightarrow> t v)"

text \<open>\<open>emissionFactors[transportMode]\<close> read as a number: an object is truthy and not a number.\<close>

definition modeFactor :: "transportMode \<Rightarrow> rat option" where
  "modeFactor m = (case emissionFactors m of Factor f \<Rightarrow> Some f | ByVehicle _ \<Rightarrow> None)"

text \<open>\<open>a || b\<close> where \<open>a\<close> may be \<open>undefined\<close>.\<close>

definition or_else :: "rat option \<Rightarrow> rat \<Rightarrow> rat" where
  "or_else a b = (case a of None \<Rightarrow> b | Some x \<Rightarrow> if x \<noteq> 0 then x else b)"

definition selectEmissionFactor :: "transportMode \<Rightarrow> vehicleType \<Rightarrow> rat" where
  "selectEmissionFactor m v =
     (if m = Rail \<or> m = Ship \<or> m = Air
      then or_else (modeFactor m) (lit (1 / 10))
      else or_else (vehicleFactor m v) (or_else (vehicleFactor Diesel Truck) (lit (15 / 100))))"

text \<open>
  \<open>calculateCarbonFootprint\<close>. The guard on the required fields returns \<open>0\<close> first.
  After it the transport mode is present, so the \<open>None\<close> case below is not reached. On
  the typed fields of a shipment document no statement of the \<open>try\<close> block throws;
  the \<open>catch\<close> branch, which returns \<open>0\<close>, is the \<open>Inl\<close> case of the wrapper.
\<close>

datatype error = Thrown

definition carbonFootprintBody :: "shipment \<Rightarrow> error + jsnum" where
  "carbonFootprintBody s =
     (if falsy (distanceKm s) \<or> transportMode s = None \<or> falsy (quantity s) then Inr (Num 0)
      else case transportMode s of
        None \<Rightarrow> Inr (Num 0)
      | Some mode \<Rightarrow>
        let distance = js_or (Number (distanceKm s)) (Num 0);
            qty = js_or (Number (quantity s)) (Num 0);
            packaging = js_or (Number (packagingWeight s)) (Num 0);
            vehicle = (case vehicleType s of None \<Rightarrow> Truck | Some v \<Rightarrow> v);
            emissionFactor = selectEmissionFactor mode vehicle;
            totalWeight = js_add qty packaging;
            carbonEmissions =
              js_mul (js_mul distance (Num emissionFactor)) (js_div totalWeight (Num 1000));
            result = js_div (Math_round (js_mul carbonEmissions (Num 100))) (Num 100)
        in Inr (js_or result (Num 0)))"

definition calculateCarbonFootprint :: "shipment \<Rightarrow> jsnum" where
  "calculateCarbonFootprint s =
     (case carbonFootprintBody s of Inl _ \<Rightarrow> Num 0 | Inr r \<Rightarrow> r)"

section \<open>Product: the green score calculator\<close>

text \<open>
  The product model: the schema's enums, the fields the method \<open>calculateGreenScore\<close>
  reads, its table \<open>packagingScores\<close> and the method itself, one \<open>let\<close> binding of
  \<open>score\<close> for each update of the variable in the source.

  In the product, supplier and waste-alert documents a numeric field is a \<open>jsnum\<close>;
  an absent one behaves in the comparisons and products below as \<open>NaN\<close> does.
\<close>

datatype packagingType = Plastic | Recyclable | Compostable | Biodegradable | Minimal

datatype certification = Organic | FairTrade | NonGMO | Vegan | GlutenFree | Kosher | Halal

record productMetrics =
  carbonFootprint :: jsnum
  waterFootprint :: jsnum
  greenScore :: jsnum

record product =
  packagingType :: "packagingType option"
  sustainabilityMetrics :: productMetrics
  certifications :: "certification list"
  baseSpoilageRate :: jsnum

definition packagingScores :: "packagingType \<rightharpoonup> rat" where
  "packagingScores =
     [Minimal \<mapsto> 25, Compostable \<mapsto> 20, Biodegradable \<mapsto> 15, Recyclable \<mapsto> 10,
      Plastic \<mapsto> - 10]"

definition calculateGreenScore :: "product \<Rightarrow> jsnum" where
  "calculateGreenScore p =
     (let score = Num 50;
          score = js_add score
            (Num (or_else (case packagingType p of None \<Rightarrow> None | Some t \<Rightarrow> packagingScores t) 0));
          carbon = carbonFootprint (sustainabilityMetrics p);
          score =
            (if js_lt carbon (Num 1) then js_add score (Num 20)
             else if js_lt carbon (Num 5) then js_add score (Num 15)
             else if js_lt carbon (Num 10) then js_add score (Num 10)
             else if js_gt carbon (Num 20) then js_sub score (Num 15)
             else score);
          water = waterFootprint (sustainabilityMetrics p);
          score =
            (if js_lt water (Num 10) then js_add score (Num 15)
             else if js_lt water (Num 50) then js_add score (Num 10)
             else if js_gt water (Num 100) then js_sub score (Num 10)
             else score);
          score = js_add score (js_mul (Num (of_nat (length (certifications p)))) (Num 5));
          spoilage = baseSpoilageRate p;
          score =
            (if js_lt spoilage (Num 2) then js_add score (Num 10)
             else if js_lt spoilage (Num 5) then js_add score (Num 5)
             else if js_gt spoilage (Num 15) then js_sub score (Num 10)
             else score)
      in Math_max (Num 0) (Math_min (Num 100) score))"

section \<open>Supplier: the ESG score calculator\<close>

text \<open>
  The supplier model: the certification levels, the audit documents with their
  \<open>verified\<close> flag, the three metrics, the table \<open>certScores\<close> and the method
  \<open>calculateESGScore\<close>.
\<close>

datatype certificationLevel =
  LevelNone | Basic | LevelFairTrade | LevelOrganic | BCorp | CarbonNeutral

record auditDoc =
  verified :: bool

record supplierMetrics =
  supplierCarbonFootprint :: jsnum
  wasteReduction :: jsnum
  renewableEnergy :: jsnum

record supplier =
  certificationLevel :: "certificationLevel option"
  ESGscore :: jsnum
  auditDocs :: "auditDoc list"
  supplierSustainabilityMetrics :: supplierMetrics

definition certScores :: "certificationLevel \<rightharpoonup> rat" where
  "certScores =
     [LevelNone \<mapsto> 0, Basic \<mapsto> 10, LevelFairTrade \<mapsto> 25, LevelOrganic \<mapsto> 30, BCorp \<mapsto> 40,
      CarbonNeutral \<mapsto> 35]"

definition calculateESGScore :: "supplier \<Rightarrow> jsnum" where
  "calculateESGScore s =
     (let score = Num 0;
          score = js_add score
            (Num (or_else (case certificationLevel s of None \<Rightarrow> None | Some l \<Rightarrow> certScores l) 0));
          carbon = supplierCarbonFootprint (supplierSustainabilityMetrics s);
          score =
            (if js_lt carbon (Num 10) then js_add score (Num 20)
             else if js_lt carbon (Num 25) then js_add score (Num 15)
             else if js_lt carbon (Num 50) then js_add score (Num 10)
             else score);
          waste = wasteReduction (supplierSustainabilityMetrics s);
          score =
            (if js_gt waste (Num 50) then js_add score (Num 20)
             else if js_gt waste (Num 25) then js_add score (Num 15)
             else if js_gt waste (Num 10) then js_add score (Num 10)
             else score);
          renewable = renewableEnergy (supplierSustainabilityMetrics s);
          score =
            (if js_gt renewable (Num 80) then js_add score (Num 20)
             else if js_gt renewable (Num 50) then js_add score (Num 15)
             else if js_gt renewable (Num 20) then js_add score (Num 10)
             else score);
          verifiedDocs = length (filter verified (auditDocs s));
          score = js_add score (Math_min (js_mul (Num (of_nat verifiedDocs)) (Num 5)) (Num 20))
      in Math_min score (Num 100))"

section \<open>Waste alert: the risk classifier\<close>

text \<open>
  The waste-alert model: the risk levels and the lifecycle status of the schema, and the
  methods \<open>calculateRiskLevel\<close> and \<open>generateRecommendations\<close>, which pushes onto a
  list that starts empty.
\<close>

datatype riskLevel = Low | Medium | High | Critical

datatype alertStatus = Active | Acknowledged | Resolved | Dismissed

record recommendation =
  action :: string
  impact :: string
  description :: string
  estimatedSavings :: jsnum

record wasteAlert =
  predictedWasteQty :: jsnum
  currentStock :: jsnum
  predictedWastePercentage :: jsnum
  riskLevel :: riskLevel
  confidence :: jsnum
  status :: alertStatus

definition calculateRiskLevel :: "wasteAlert \<Rightarrow> riskLevel" where
  "calculateRiskLevel a =
     (let wastePercentage = predictedWastePercentage a;
          conf = confidence a;
          adjustedRisk = js_mul wastePercentage (js_div conf (Num 100))
      in if js_ge adjustedRisk (Num 30) then Critical
         else if js_ge adjustedRisk (Num 20) then High
         else if js_ge adjustedRisk (Num 10) then Medium
         else Low)"

definition generateRecommendations :: "wasteAlert \<Rightarrow> recommendation list" where
  "generateRecommendations a =
     (let recommendations = [];
          recommendations =
            (if js_gt (predictedWastePercentage a) (Num 20)
             then recommendations @
               [\<lparr>action = ''Discount Pricing'', impact = ''high'',
                 description = ''Implement 20-30% discount to increase sales velocity'',
                 estimatedSavings = js_mul (predictedWasteQty a) (Num 5)\<rparr>]
             else recommendations);
          recommendations =
            (if js_gt (currentStock a) (js_mul (predictedWasteQty a) (Num 2))
             then recommendations @
               [\<lparr>action = ''Transfer to Other Stores'', impact = ''medium'',
                 description = ''Transfer excess inventory to stores with higher demand'',
                 estimatedSavings = js_mul (predictedWasteQty a) (Num 3)\<rparr>]
             else recommendations);
          recommendations =
            (if js_gt (predictedWastePercentage a) (Num 15)
             then recommendations @
               [\<lparr>action = ''Promotional Campaign'', impact = ''medium'',
                 description = ''Launch targeted marketing campaign to boost sales'',
                 estimatedSavings = js_mul (predictedWasteQty a) (Num 4)\<rparr>]
             else recommendations)
      in recommendations)"

section \<open>Analytics: the aggregate sustainability scorer\<close>

text \<open>
  The helper functions of the analytics routes: \<open>calculateCarbonScore\<close>,
  \<open>calculateSupplierScore\<close>, \<open>calculateProductScore\<close> and \<open>calculateWasteScore\<close>;
  \<open>reduce\<close> with a start value is \<open>foldl\<close>. The virtual \<open>carbonKg\<close> of a shipment
  calls \<open>calculateCarbonFootprint\<close>.
\<close>

definition carbonKg :: "shipment \<Rightarrow> jsnum" where
  "carbonKg s = calculateCarbonFootprint s"

definition calculateCarbonScore :: "shipment list \<Rightarrow> jsnum" where
  "calculateCarbonScore shipments =
     (if length shipments = 0 then Num 0
      else
        let totalCarbon = foldl (\<lambda>sum sh. js_add sum (carbonKg sh)) (Num 0) shipments;
            avgCarbonPerShipment = js_div totalCarbon (Num (of_nat (length shipments)))
        in if js_lt avgCarbonPerShipment (Num 5) then Num 100
           else if js_lt avgCarbonPerShipment (Num 10) then Num 80
           else if js_lt avgCarbonPerShipment (Num 20) then Num 60
           else if js_lt avgCarbonPerShipment (Num 50) then Num 40
           else Num 20)"

definition calculateSupplierScore :: "supplier list \<Rightarrow> jsnum" where
  "calculateSupplierScore suppliers =
     (if length suppliers = 0 then Num 0
      else
        let avgESGScore =
              js_div (foldl (\<lambda>sum su. js_add sum (ESGscore su)) (Num 0) suppliers)
                (Num (of_nat (length suppliers)))
        in Math_min (Num 100) avgESGScore)"

definition calculateProductScore :: "product list \<Rightarrow> jsnum" where
  "calculateProductScore products =
     (if length products = 0 then Num 0
      else
        let avgGreenScore =
              js_div
                (foldl (\<lambda>sum pr. js_add sum (greenScore (sustainabilityMetrics pr))) (Num 0) products)
                (Num (of_nat (length products)))
        in Math_min (Num 100) avgGreenScore)"

definition calculateWasteScore :: "wasteAlert list \<Rightarrow> jsnum" where
  "calculateWasteScore alerts =
     (if length alerts = 0 then Num 100
      else
        let activeAlerts = filter (\<lambda>alert. status alert = Active) alerts;
            criticalAlerts = filter (\<lambda>alert. riskLevel alert = Critical) activeAlerts;
            resolutionRate =
              js_div (Num (of_nat (length (filter (\<lambda>alert. status alert = Resolved) alerts))))
                (Num (of_nat (length alerts)));
            criticalRate =
              js_div (Num (of_nat (length criticalAlerts))) (Num (of_nat (length activeAlerts)));
            score = js_mul resolutionRate (Num 100);
            score = js_sub score (js_mul criticalRate (Num 30))
        in Math_max (Num 0) (Math_min (Num 100) score))"

section \<open>The specification's formulas\<close>

text \<open>
  The specification's emission-factor table in decimal, read as a function: the mode-level
  factor for rail, ship and air, the vehicle's factor for diesel, electric and hybrid, and
  the diesel truck factor for a vehicle type the mode has no entry for.
\<close>

fun spec_emissionFactor :: "transportMode \<Rightarrow> vehicleType \<Rightarrow> rat" where
  "spec_emissionFactor Rail _ = 3 / 100"
| "spec_emissionFactor Ship _ = 2 / 100"
| "spec_emissionFactor Air _ = 50 / 100"
| "spec_emissionFactor Diesel Truck = 15 / 100"
| "spec_emissionFactor Diesel Van = 12 / 100"
| "spec_emissionFactor Diesel Car = 8 / 100"
| "spec_emissionFactor Electric Truck = 5 / 100"
| "spec_emissionFactor Electric Van = 4 / 100"
| "spec_emissionFactor Electric Car = 2 / 100"
| "spec_emissionFactor Hybrid Truck = 10 / 100"
| "spec_emissionFactor Hybrid Van = 8 / 100"
| "spec_emissionFactor Hybrid Car = 5 / 100"
| "spec_emissionFactor _ _ = 15 / 100"

text \<open>A missing vehicle type defaults to truck.\<close>

definition spec_vehicle :: "vehicleType option \<Rightarrow> vehicleType" where
  "spec_vehicle v = (case v of None \<Rightarrow> Truck | Some t \<Rightarrow> t)"

text \<open>Rounding to two decimal places in exact arithmetic, a tie going up.\<close>

definition round2 :: "rat \<Rightarrow> rat" where
  "round2 x = of_int \<lfloor>x * 100 + 1 / 2\<rfloor> / 100"

text \<open>
  The carbon formula as the code computes it, every operation in binary64: distance times
  emission factor times total weight in tons, then \<open>Math.round\<close> of the hundredfold,
  divided by 100.
\<close>

definition round_to_cents :: "jsnum \<Rightarrow> jsnum" where
  "round_to_cents x = js_div (Math_round (js_mul x (Num 100))) (Num 100)"

definition carbon_formula :: "rat \<Rightarrow> rat \<Rightarrow> rat \<Rightarrow> rat \<Rightarrow> jsnum" where
  "carbon_formula d ef q p =
     round_to_cents
       (js_mul (js_mul (Num d) (Num ef)) (js_div (js_add (Num q) (Num p)) (Num 1000)))"

text \<open>The adjusted risk as the code computes it: the quotient first, then the product.\<close>

definition adjusted_risk :: "rat \<Rightarrow> rat \<Rightarrow> jsnum" where
  "adjusted_risk w c = js_mul (Num w) (js_div (Num c) (Num 100))"

text \<open>A value that is not below zero, and a field that is absent or holds such a value.\<close>

definition not_negative :: "jsnum \<Rightarrow> bool" where
  "not_negative x = (\<not> js_lt x (Num 0))"

definition nonneg_field :: "jsnum option \<Rightarrow> bool" where
  "nonneg_field v = (case v of None \<Rightarrow> True | Some x \<Rightarrow> not_negative x)"

text \<open>The specification's packaging adjustment; an absent packaging type adds nothing.\<close>

definition spec_packaging :: "packagingType option \<Rightarrow> rat" where
  "spec_packaging t = (case t of
       Some Minimal \<Rightarrow> 25 | Some Compostable \<Rightarrow> 20 | Some Biodegradable \<Rightarrow> 15
     | Some Recyclable \<Rightarrow> 10 | Some Plastic \<Rightarrow> - 10 | None \<Rightarrow> 0)"

text \<open>
  The bands of a metric read as exclusive: a band contributes only where no earlier band
  of the same metric applies.
\<close>

definition exclusive_carbon_band :: "jsnum \<Rightarrow> rat" where
  "exclusive_carbon_band c =
     (if js_lt c (Num 1) then 20 else 0) +
     (if \<not> js_lt c (Num 1) \<and> js_lt c (Num 5) then 15 else 0) +
     (if \<not> js_lt c (Num 5) \<and> js_lt c (Num 10) then 10 else 0) +
     (if \<not> js_lt c (Num 10) \<and> js_gt c (Num 20) then - 15 else 0)"

definition exclusive_water_band :: "jsnum \<Rightarrow> rat" where
  "exclusive_water_band w =
     (if js_lt w (Num 10) then 15 else 0) +
     (if \<not> js_lt w (Num 10) \<and> js_lt w (Num 50) then 10 else 0) +
     (if \<not> js_lt w (Num 50) \<and> js_gt w (Num 100) then - 10 else 0)"

definition exclusive_spoilage_band :: "jsnum \<Rightarrow> rat" where
  "exclusive_spoilage_band r =
     (if js_lt r (Num 2) then 10 else 0) +
     (if \<not> js_lt r (Num 2) \<and> js_lt r (Num 5) then 5 else 0) +
     (if \<not> js_lt r (Num 5) \<and> js_gt r (Num 15) then - 10 else 0)"

text \<open>
  The bands of a metric read as layered: every band whose condition holds contributes, and
  the contributions add up. \<open>claimed_layered_green_score\<close> is the green score under that
  reading.
\<close>

definition layered_carbon_band :: "jsnum \<Rightarrow> rat" where
  "layered_carbon_band c =
     (if js_lt c (Num 1) then 20 else 0) + (if js_lt c (Num 5) then 15 else 0) +
     (if js_lt c (Num 10) then 10 else 0) + (if js_gt c (Num 20) then - 15 else 0)"

definition layered_water_band :: "jsnum \<Rightarrow> rat" where
  "layered_water_band w =
     (if js_lt w (Num 10) then 15 else 0) + (if js_lt w (Num 50) then 10 else 0) +
     (if js_gt w (Num 100) then - 10 else 0)"

definition layered_spoilage_band :: "jsnum \<Rightarrow> rat" where
  "layered_spoilage_band r =
     (if js_lt r (Num 2) then 10 else 0) + (if js_lt r (Num 5) then 5 else 0) +
     (if js_gt r (Num 15) then - 10 else 0)"

definition claimed_layered_green_score :: "product \<Rightarrow> jsnum" where
  "claimed_layered_green_score p =
     Num (max 0 (min 100
       (50 + spec_packaging (packagingType p) +
        layered_carbon_band (carbonFootprint (sustainabilityMetrics p)) +
        layered_water_band (waterFootprint (sustainabilityMetrics p)) +
        5 * of_nat (length (certifications p)) +
        layered_spoilage_band (baseSpoilageRate p))))"

text \<open>The specification's certification bonus and the three metric bonuses of the ESG score.\<close>

definition spec_certification_bonus :: "certificationLevel option \<Rightarrow> rat" where
  "spec_certification_bonus l = (case l of
       Some LevelNone \<Rightarrow> 0 | Some Basic \<Rightarrow> 10 | Some LevelFairTrade \<Rightarrow> 25
     | Some LevelOrganic \<Rightarrow> 30 | Some BCorp \<Rightarrow> 40 | Some CarbonNeutral \<Rightarrow> 35 | None \<Rightarrow> 0)"

definition esg_carbon_band :: "jsnum \<Rightarrow> rat" where
  "esg_carbon_band c =
     (if js_lt c (Num 10) then 20 else if js_lt c (Num 25) then 15
      else if js_lt c (Num 50) then 10 else 0)"

definition esg_waste_band :: "jsnum \<Rightarrow> rat" where
  "esg_waste_band w =
     (if js_gt w (Num 50) then 20 else if js_gt w (Num 25) then 15
      else if js_gt w (Num 10) then 10 else 0)"

definition esg_renewable_band :: "jsnum \<Rightarrow> rat" where
  "esg_renewable_band e =
     (if js_gt e (Num 80) then 20 else if js_gt e (Num 50) then 15
      else if js_gt e (Num 20) then 10 else 0)"

text \<open>The severity order of the risk levels: low, medium, high, critical.\<close>

fun severity :: "riskLevel \<Rightarrow> nat" where
  "severity Low = 0"
| "severity Medium = 1"
| "severity High = 2"
| "severity Critical = 3"

section \<open>Properties of binary64 rounding\<close>

lemma rne_of_int: "rne (of_int n) = n"
  by (simp add: rne_def)

lemma rne_bounds: "\<lfloor>r\<rfloor> \<le> rne r \<and> rne r \<le> \<lfloor>r\<rfloor> + 1"
  by (simp add: rne_def Let_def)

lemma rne_mono: "r \<le> s \<Longrightarrow> rne r \<le> rne s"
proof -
  assume rs: "r \<le> s"
  then have fl: "\<lfloor>r\<rfloor> \<le> \<lfloor>s\<rfloor>" by (rule floor_mono)
  show ?thesis
  proof (cases "\<lfloor>r\<rfloor> < \<lfloor>s\<rfloor>")
    case True
    then show ?thesis using rne_bounds [of r] rne_bounds [of s] by linarith
  next
    case False
    then have eq: "\<lfloor>r\<rfloor> = \<lfloor>s\<rfloor>" using fl by simp
    then show ?thesis using rs by (auto simp add: rne_def Let_def)
  qed
qed

lemma rne_minus: "rne (- r) = - rne r"
proof (cases "r = of_int \<lfloor>r\<rfloor>")
  case True
  then obtain n where "r = of_int n" ..
  then show ?thesis using rne_of_int [of "- n"] by (simp add: rne_of_int)
next
  case False
  then have lt: "of_int \<lfloor>r\<rfloor> < r" using of_int_floor_le [of r] by linarith
  have "\<lfloor>- r\<rfloor> = - \<lfloor>r\<rfloor> - 1"
    using lt floor_correct [of r] by (intro floor_unique) simp_all
  then show ?thesis
    by (auto simp add: rne_def Let_def)
qed

lemma rne_nonneg: "0 \<le> r \<Longrightarrow> 0 \<le> rne r"
  using rne_mono [of 0 r] rne_of_int [of 0] by simp

text \<open>The exponent found by \<open>ilog2\<close> is the binary exponent.\<close>

lemma ilog2_bounds:
  assumes "0 < x"
  shows "2 powi (ilog2 x) \<le> x \<and> x < 2 powi (ilog2 x + 1)"
proof -
  obtain p q where pq: "quotient_of x = (p, q)" by (cases "quotient_of x")
  then have q: "0 < q" and x: "x = of_int p / of_int q"
    by (simp_all add: quotient_of_denom_pos quotient_of_div)
  have p: "0 < p" using assms q x by (simp add: zero_less_divide_iff)
  define e where "e = bitlen p - bitlen q"
  have bp: "1 \<le> bitlen p" "1 \<le> bitlen q" using p q by (simp_all add: bitlen_alt_def)
  have "(2::int) ^ nat (bitlen p - 1) \<le> p" "p < 2 ^ nat (bitlen p)"
    "(2::int) ^ nat (bitlen q - 1) \<le> q" "q < 2 ^ nat (bitlen q)"
    using bitlen_bounds [OF p] bitlen_bounds [OF q] by simp_all
  then have "(of_int (2 ^ nat (bitlen p - 1)) :: rat) \<le> of_int p"
    "(of_int p :: rat) < of_int (2 ^ nat (bitlen p))"
    "(of_int (2 ^ nat (bitlen q - 1)) :: rat) \<le> of_int q"
    "(of_int q :: rat) < of_int (2 ^ nat (bitlen q))"
    by (simp_all only: of_int_le_iff of_int_less_iff)
  then have b: "(2::rat) powi (bitlen p - 1) \<le> of_int p" "(of_int p :: rat) < 2 powi (bitlen p)"
    "(2::rat) powi (bitlen q - 1) \<le> of_int q" "(of_int q :: rat) < 2 powi (bitlen q)"
    using bp by (simp_all add: power_int_def)
  have qpos: "(0::rat) < of_int q" using q by simp
  have "x * of_int q < 2 powi (bitlen p)" using b x qpos by simp
  also have "\<dots> = 2 powi (e + 1) * 2 powi (bitlen q - 1)"
    by (simp add: e_def power_int_add [symmetric])
  also have "\<dots> \<le> 2 powi (e + 1) * of_int q"
    using b by (intro mult_left_mono) simp_all
  finally have upper: "x < 2 powi (e + 1)" using qpos by simp
  have "(2::rat) powi (e - 1) * of_int q < 2 powi (e - 1) * 2 powi (bitlen q)"
    using b by (intro mult_strict_left_mono) simp_all
  also have "\<dots> = 2 powi (bitlen p - 1)"
    by (simp add: e_def power_int_add [symmetric])
  also have "\<dots> \<le> x * of_int q" using b x qpos by simp
  finally have lower: "2 powi (e - 1) < x" using qpos by simp
  have il: "ilog2 x = (if 2 powi e \<le> x then e else e - 1)"
    by (simp add: ilog2_def pq e_def)
  show ?thesis
  proof (cases "2 powi e \<le> x")
    case True
    then show ?thesis using upper il by simp
  next
    case False
    then show ?thesis using lower il by (simp add: not_le less_imp_le)
  qed
qed

lemma pow2_less_D: "(2::rat) powi m < 2 powi n \<Longrightarrow> m < n"
proof (rule ccontr)
  assume lt: "(2::rat) powi m < 2 powi n" and "\<not> m < n"
  then have "n \<le> m" by simp
  then have "(2::rat) powi n \<le> 2 powi m" by (intro power_int_increasing) simp_all
  with lt show False by simp
qed

lemma ilog2_unique:
  assumes "2 powi e \<le> x" and "x < 2 powi (e + 1)"
  shows "ilog2 x = e"
proof -
  have pos: "0 < x" using assms(1) zero_less_power_int [of "2::rat" e] by linarith
  note b = ilog2_bounds [OF pos]
  have "(2::rat) powi (ilog2 x) < 2 powi (e + 1)" using b assms by linarith
  then have 1: "ilog2 x < e + 1" by (rule pow2_less_D)
  have "(2::rat) powi e < 2 powi (ilog2 x + 1)" using b assms by linarith
  then have 2: "e < ilog2 x + 1" by (rule pow2_less_D)
  from 1 2 show ?thesis by simp
qed

lemma ilog2_mono:
  assumes "0 < x" and "x \<le> y"
  shows "ilog2 x \<le> ilog2 y"
proof -
  have "(2::rat) powi (ilog2 x) < 2 powi (ilog2 y + 1)"
    using ilog2_bounds [of x] ilog2_bounds [of y] assms by linarith
  then have "ilog2 x < ilog2 y + 1" by (rule pow2_less_D)
  then show ?thesis by simp
qed

lemma ulp_pos: "0 < ulp x"
  by (simp add: ulp_def)

lemma ulp_minus: "ulp (- x) = ulp x"
  by (simp add: ulp_def)

lemma nearest_zero: "nearest 0 = 0"
  by (simp add: nearest_def)

lemma nearest_minus: "nearest (- x) = - nearest x"
  by (simp add: nearest_def ulp_minus rne_minus)

lemma nearest_nonneg: "0 \<le> x \<Longrightarrow> 0 \<le> nearest x"
  using ulp_pos [of x] by (simp add: nearest_def rne_nonneg)

text \<open>Rounding does not cross a multiple of the spacing.\<close>

lemma nearest_le_grid:
  assumes "x \<le> of_int n * ulp x"
  shows "nearest x \<le> of_int n * ulp x"
proof (cases "x = 0")
  case True
  then show ?thesis using assms by (simp add: nearest_def)
next
  case False
  have "x / ulp x \<le> of_int n" using assms ulp_pos [of x] by (simp add: pos_divide_le_eq)
  then have "rne (x / ulp x) \<le> n" using rne_mono [of "x / ulp x" "of_int n"] by (simp add: rne_of_int)
  then have "(of_int (rne (x / ulp x)) :: rat) \<le> of_int n" by simp
  then show ?thesis using False ulp_pos [of x] by (simp add: nearest_def)
qed

lemma nearest_ge_grid:
  assumes "of_int n * ulp x \<le> x" and "x \<noteq> 0"
  shows "of_int n * ulp x \<le> nearest x"
proof -
  have "of_int n \<le> x / ulp x" using assms ulp_pos [of x] by (simp add: pos_le_divide_eq)
  then have "n \<le> rne (x / ulp x)" using rne_mono [of "of_int n" "x / ulp x"] by (simp add: rne_of_int)
  then have "(of_int n :: rat) \<le> of_int (rne (x / ulp x))" by simp
  then show ?thesis using assms ulp_pos [of x] by (simp add: nearest_def)
qed

lemma pow2_int: "0 \<le> n \<Longrightarrow> (2::rat) powi n = of_int (2 ^ nat n)"
  by (simp add: power_int_def)

text \<open>
  Rounding is monotone. Where the spacing changes between \<open>x\<close> and \<open>y\<close>, the power of two
  at the binary exponent of \<open>y\<close> lies between them and on both grids.
\<close>

lemma nearest_mono_pos:
  assumes "0 < x" and "x \<le> y"
  shows "nearest x \<le> nearest y"
proof -
  define ex where "ex = max (ilog2 x - 52) (- 1074)"
  define ey where "ey = max (ilog2 y - 52) (- 1074)"
  have y: "0 < y" using assms by simp
  have ux: "ulp x = 2 powi ex" and uy: "ulp y = 2 powi ey"
    using assms y by (simp_all add: ulp_def ex_def ey_def)
  have il: "ilog2 x \<le> ilog2 y" using assms by (rule ilog2_mono)
  then have le: "ex \<le> ey" by (simp add: ex_def ey_def)
  show ?thesis
  proof (cases "ex = ey")
    case True
    then have u: "ulp y = ulp x" by (simp add: ux uy)
    have "x / ulp x \<le> y / ulp x" using assms ulp_pos [of x] by (simp add: divide_right_mono)
    then have "rne (x / ulp x) \<le> rne (y / ulp x)" by (rule rne_mono)
    then have "(of_int (rne (x / ulp x)) :: rat) \<le> of_int (rne (y / ulp x))" by simp
    then show ?thesis using assms y ulp_pos [of x] by (simp add: nearest_def u)
  next
    case False
    then have lt: "ex < ey" using le by simp
    then have ey: "ey = ilog2 y - 52" unfolding ey_def ex_def by linarith
    have exl: "ilog2 x - 52 \<le> ex" by (simp add: ex_def)
    have ilt: "ilog2 x + 1 \<le> ilog2 y" using lt ey exl by simp
    define t :: rat where "t = 2 powi (ilog2 y)"
    have "x < 2 powi (ilog2 x + 1)" using ilog2_bounds [OF assms(1)] by simp
    also have "\<dots> \<le> t" unfolding t_def using ilt by (intro power_int_increasing) simp_all
    finally have xt: "x \<le> t" by simp
    have ty: "t \<le> y" using ilog2_bounds [OF y] by (simp add: t_def)
    have "t = 2 powi (ilog2 y - ex) * ulp x"
      by (simp add: t_def ux power_int_add [symmetric])
    also have "(2::rat) powi (ilog2 y - ex) = of_int (2 ^ nat (ilog2 y - ex))"
      using lt ey by (intro pow2_int) simp
    finally have tx: "t = of_int (2 ^ nat (ilog2 y - ex)) * ulp x" .
    have "t = 2 powi (52 + (ilog2 y - 52))" by (simp add: t_def)
    also have "\<dots> = 2 powi 52 * 2 powi (ilog2 y - 52)" by (rule power_int_add) simp
    finally have tyu: "t = of_int (2 ^ 52) * ulp y" by (simp add: uy ey)
    have "nearest x \<le> t" using nearest_le_grid [of x "2 ^ nat (ilog2 y - ex)"] xt tx by simp
    moreover have "t \<le> nearest y" using nearest_ge_grid [of "2 ^ 52" y] ty tyu y by simp
    ultimately show ?thesis by simp
  qed
qed

lemma nearest_mono: "x \<le> y \<Longrightarrow> nearest x \<le> nearest y"
proof -
  assume xy: "x \<le> y"
  consider "0 < x" | "x \<le> 0" "0 \<le> y" | "y < 0" by linarith
  then show ?thesis
  proof cases
    case 1
    then show ?thesis using xy by (rule nearest_mono_pos)
  next
    case 2
    have "nearest x = - nearest (- x)" by (simp add: nearest_minus)
    moreover have "0 \<le> nearest (- x)" using 2 by (intro nearest_nonneg) simp
    moreover have "0 \<le> nearest y" using 2 by (intro nearest_nonneg)
    ultimately show ?thesis by simp
  next
    case 3
    then have "nearest (- y) \<le> nearest (- x)" using xy by (intro nearest_mono_pos) simp_all
    then show ?thesis by (simp add: nearest_minus)
  qed
qed

text \<open>A value with a significand of at most 53 bits is not changed.\<close>

lemma nearest_exact:
  assumes x: "x = of_int m * 2 powi k" and m: "\<bar>m\<bar> < 2 ^ 53" and k: "- 1074 \<le> k"
  shows "nearest x = x"
proof (cases "x = 0")
  case True
  then show ?thesis by (simp add: nearest_def)
next
  case False
  define e where "e = max (ilog2 \<bar>x\<bar> - 52) (- 1074)"
  have u: "ulp x = 2 powi e" by (simp add: ulp_def e_def)
  have pos: "0 < \<bar>x\<bar>" using False by simp
  have "\<bar>x\<bar> = of_int \<bar>m\<bar> * 2 powi k" by (simp add: x abs_mult)
  also have "\<dots> < of_int (2 ^ 53) * 2 powi k"
  proof (rule mult_strict_right_mono)
    show "(of_int \<bar>m\<bar> :: rat) < of_int (2 ^ 53)" using m by (simp only: of_int_less_iff)
    show "(0::rat) < 2 powi k" by simp
  qed
  also have "\<dots> = 2 powi (53 + k)" by (simp add: power_int_add)
  finally have "(2::rat) powi (ilog2 \<bar>x\<bar>) < 2 powi (53 + k)"
    using ilog2_bounds [OF pos] by linarith
  then have "ilog2 \<bar>x\<bar> < 53 + k" by (rule pow2_less_D)
  then have ek: "e \<le> k" using k by (simp add: e_def)
  have "x / 2 powi e = of_int m * 2 powi (k - e)"
    by (simp add: x power_int_diff)
  then have "x / ulp x = of_int m * 2 powi (k - e)"
    by (simp only: u)
  also have "(2::rat) powi (k - e) = of_int (2 ^ nat (k - e))" using ek by (intro pow2_int) simp
  finally have "x / ulp x = of_int (m * 2 ^ nat (k - e))" by simp
  then have "rne (x / ulp x) = m * 2 ^ nat (k - e)" by (simp only: rne_of_int)
  then have "nearest x = of_int (m * 2 ^ nat (k - e)) * ulp x" using False by (simp add: nearest_def)
  also have "\<dots> = of_int m * (2 powi (k - e) * 2 powi e)"
    using ek by (simp add: u pow2_int)
  also have "\<dots> = x" by (simp add: x power_int_add [symmetric])
  finally show ?thesis .
qed

lemma nearest_int: "\<bar>n\<bar> < 2 ^ 53 \<Longrightarrow> nearest (of_int n) = of_int n"
  using nearest_exact [of "of_int n" n 0] by simp

lemma overflow_threshold_pos: "0 < overflow_threshold"
  by (simp add: overflow_threshold_def)

lemma fl_mono: "x \<le> y \<Longrightarrow> js_le (fl x) (fl y)"
  using nearest_mono [of x y] overflow_threshold_pos
  by (auto simp add: fl_def Let_def)

lemma fl_finite: "\<bar>nearest x\<bar> < overflow_threshold \<Longrightarrow> fl x = Num (nearest x)"
  by (auto simp add: fl_def Let_def)

lemma fl_zero: "fl 0 = Num 0"
  using overflow_threshold_pos by (simp add: fl_finite nearest_zero)

lemma fl_nonneg: "0 \<le> x \<Longrightarrow> js_le (Num 0) (fl x)"
  using fl_mono [of 0 x] by (simp add: fl_zero)

lemma fl_minus: "fl (- x) = js_neg (fl x)"
  using overflow_threshold_pos by (auto simp add: fl_def Let_def nearest_minus)

lemma fl_int: "\<bar>n\<bar> < 2 ^ 53 \<Longrightarrow> fl (of_int n) = Num (of_int n)"
proof -
  assume n: "\<bar>n\<bar> < 2 ^ 53"
  then have "(of_int \<bar>n\<bar> :: rat) < of_int (2 ^ 53)" by (simp only: of_int_less_iff)
  moreover have "(of_int (2 ^ 53) :: rat) \<le> overflow_threshold"
    by (simp add: overflow_threshold_def)
  ultimately have "\<bar>of_int n :: rat\<bar> < overflow_threshold" by simp
  then show ?thesis using n by (simp add: fl_finite nearest_int)
qed

text \<open>
  Evaluation at a positive argument whose binary exponent \<open>e\<close> is given, in the normal
  range.
\<close>

lemma nearest_eval:
  assumes "2 powi e \<le> x" and "x < 2 powi (e + 1)" and "- 1022 \<le> e"
  shows "nearest x = of_int (rne (x * 2 powi (52 - e))) * 2 powi (e - 52)"
proof -
  have pos: "0 < x" using assms(1) zero_less_power_int [of "2::rat" e] by linarith
  have "ilog2 \<bar>x\<bar> = e" using pos assms by (simp add: ilog2_unique)
  then have u: "ulp x = 2 powi (e - 52)" using assms(3) by (simp add: ulp_def)
  have "x / 2 powi (e - 52) = x * 2 powi (52 - e)"
    by (simp add: power_int_diff)
  then show ?thesis using pos by (simp add: nearest_def u)
qed

lemma fl_eval:
  assumes "2 powi e \<le> x" and "x < 2 powi (e + 1)" and "- 1022 \<le> e" and "e < 1023"
  shows "fl x = Num (of_int (rne (x * 2 powi (52 - e))) * 2 powi (e - 52))"
proof -
  have pos: "0 < x" using assms(1) zero_less_power_int [of "2::rat" e] by linarith
  have "ilog2 \<bar>x\<bar> = e" using pos assms by (simp add: ilog2_unique)
  then have u: "ulp x = 2 powi (e - 52)" using assms(3) by (simp add: ulp_def)
  have "e + 1 = 53 + (e - 52)" by simp
  then have "(2::rat) powi (e + 1) = 2 powi (53 + (e - 52))" by (rule arg_cong)
  also have "\<dots> = 2 powi 53 * 2 powi (e - 52)" by (rule power_int_add) simp
  finally have g: "(2::rat) powi (e + 1) = of_int (2 ^ 53) * ulp x" by (simp add: u)
  have "nearest x \<le> 2 powi (e + 1)"
    using nearest_le_grid [of x "2 ^ 53"] assms(2) g by simp
  also have "(2::rat) powi (e + 1) \<le> 2 powi 1023"
    using assms(4) by (intro power_int_increasing) simp_all
  also have "(2::rat) powi 1023 < overflow_threshold" by (simp add: overflow_threshold_def)
  finally have "nearest x < overflow_threshold" .
  moreover have "0 \<le> nearest x" using pos by (intro nearest_nonneg) simp
  ultimately have "fl x = Num (nearest x)" by (intro fl_finite) simp
  then show ?thesis using nearest_eval [OF assms(1-3)] by simp
qed

lemma floor_rat_numeral: "\<lfloor>numeral a / numeral b :: rat\<rfloor> = numeral a div numeral b"
  using floor_divide_of_int_eq [of "numeral a" "numeral b", where ?'a = rat] by simp

section \<open>Properties of the carbon footprint calculator\<close>

lemma lit_bounds:
  assumes "1 / 64 \<le> x" and "x \<le> 1 / 2"
  shows "1 / 64 \<le> lit x \<and> lit x \<le> 1 / 2"
proof -
  have "nearest (1 / 64) = 1 / 64" using nearest_exact [of "1 / 64" 1 "- 6"] by simp
  moreover have "nearest (1 / 2) = 1 / 2" using nearest_exact [of "1 / 2" 1 "- 1"] by simp
  ultimately show ?thesis
    using nearest_mono [OF assms(1)] nearest_mono [OF assms(2)] by (simp add: lit_def)
qed

lemma spec_emissionFactor_bounds:
  "1 / 64 \<le> spec_emissionFactor m v \<and> spec_emissionFactor m v \<le> 1 / 2"
  by (cases m; cases v) simp_all

lemma lit_factor_pos: "0 < lit (spec_emissionFactor m v)"
  using lit_bounds [of "spec_emissionFactor m v"] spec_emissionFactor_bounds [of m v] by simp

lemma selectEmissionFactor_table: "selectEmissionFactor m v = lit (spec_emissionFactor m v)"
proof -
  have nz: "lit (spec_emissionFactor m' v') \<noteq> 0" for m' v'
    using lit_factor_pos [of m' v'] by simp
  have or: "or_else (Some (lit (spec_emissionFactor m' v'))) y = lit (spec_emissionFactor m' v')"
    for m' v' y
    using nz [of m' v'] by (simp add: or_else_def)
  note f = or [of Rail Truck] or [of Ship Truck] or [of Air Truck]
    or [of Diesel Truck] or [of Diesel Van] or [of Diesel Car]
    or [of Electric Truck] or [of Electric Van] or [of Electric Car]
    or [of Hybrid Truck] or [of Hybrid Van] or [of Hybrid Car]
  have none: "or_else None y = y" for y by (simp add: or_else_def)
  show ?thesis
    using f
    by (cases m; cases v)
      (simp_all add: selectEmissionFactor_def modeFactor_def vehicleFactor_def emissionFactors_def
        none)
qed

lemma selectEmissionFactor_pos: "0 < selectEmissionFactor m v"
  by (simp add: selectEmissionFactor_table lit_factor_pos)

lemma js_or_zero: "js_or r (Num 0) = (if r = NaN then Num 0 else r)"
  by (cases r) (simp_all add: js_or_def)

text \<open>The result on finite distance, quantity and packaging weight.\<close>

lemma carbon_finite:
  assumes "distanceKm s = Some (Num d)" and "quantity s = Some (Num q)"
    and "transportMode s = Some m"
    and "packagingWeight s = None \<and> p = 0 \<or> packagingWeight s = Some (Num p)"
  shows "calculateCarbonFootprint s =
    (if d = 0 \<or> q = 0 then Num 0
     else js_or
       (carbon_formula d (selectEmissionFactor m (spec_vehicle (vehicleType s))) q p) (Num 0))"
  using assms
  by (auto simp add: calculateCarbonFootprint_def carbonFootprintBody_def falsy_def Number_def
      js_or_def carbon_formula_def round_to_cents_def spec_vehicle_def Let_def)

lemma lit_15: "lit (15 / 100) = 5404319552844595 / 36028797018963968"
  using nearest_eval [of "- 3" "15 / 100"] by (simp add: lit_def rne_def floor_rat_numeral)

lemma carbon_formula_example: "carbon_formula 100 (lit (15 / 100)) 500 0 = Num (15 / 2)"
proof -
  have "js_mul (Num 100) (Num (lit (15 / 100))) =
      fl (100 * (5404319552844595 / 36028797018963968))"
    by (simp only: js_mul.simps lit_15)
  also have "\<dots> = Num 15"
    using fl_eval [of 3 "100 * (5404319552844595 / 36028797018963968)"]
    by (simp add: rne_def floor_rat_numeral)
  finally have s1: "js_mul (Num 100) (Num (lit (15 / 100))) = Num 15" .
  have s2: "js_add (Num 500) (Num 0) = Num 500"
    using fl_int [of 500] by simp
  have s3: "js_div (Num 500) (Num 1000) = Num (1 / 2)"
    using fl_eval [of "- 1" "1 / 2"] by (simp add: rne_def)
  have s4: "js_mul (Num 15) (Num (1 / 2)) = Num (15 / 2)"
    using fl_eval [of 2 "15 / 2"] by (simp add: rne_def)
  have s5: "js_mul (Num (15 / 2)) (Num 100) = Num 750"
    using fl_int [of 750] by simp
  have s6: "Math_round (Num 750) = Num 750"
    by (simp add: floor_rat_numeral)
  have s7: "js_div (Num 750) (Num 100) = Num (15 / 2)"
    using fl_eval [of 2 "15 / 2"] by (simp add: rne_def)
  show ?thesis
    by (simp only: carbon_formula_def round_to_cents_def s1 s2 s3 s4 s5 s6 s7)
qed


lemma carbon_formula_witness_value: "carbon_formula 200 (lit (15 / 100)) 1000 0 = Num 30"
proof -
  have "js_mul (Num 200) (Num (lit (15 / 100))) =
      fl (200 * (5404319552844595 / 36028797018963968))"
    by (simp only: js_mul.simps lit_15)
  also have "\<dots> = Num 30"
    using fl_eval [of 4 "200 * (5404319552844595 / 36028797018963968)"]
    by (simp add: rne_def floor_rat_numeral)
  finally have s1: "js_mul (Num 200) (Num (lit (15 / 100))) = Num 30" .
  have s2: "js_add (Num 1000) (Num 0) = Num 1000"
    using fl_int [of 1000] by simp
  have s3: "js_div (Num 1000) (Num 1000) = Num 1"
    using fl_int [of 1] by simp
  have s4: "js_mul (Num 30) (Num 1) = Num 30"
    using fl_int [of 30] by simp
  have s5: "js_mul (Num 30) (Num 100) = Num 3000"
    using fl_int [of 3000] by simp
  have s6: "Math_round (Num 3000) = Num 3000"
    by (simp add: floor_rat_numeral)
  have s7: "js_div (Num 3000) (Num 100) = Num 30"
    using fl_int [of 30] by simp
  show ?thesis
    by (simp only: carbon_formula_def round_to_cents_def s1 s2 s3 s4 s5 s6 s7)
qed

lemma carbon_formula_cent_off:
  "carbon_formula 3 (lit (15 / 100)) 300 0 = Num (1170935903116329 / 9007199254740992)"
proof -
  have "js_mul (Num 3) (Num (lit (15 / 100))) =
      fl (3 * (5404319552844595 / 36028797018963968))"
    by (simp only: js_mul.simps lit_15)
  also have "\<dots> = Num (2026619832316723 / 4503599627370496)"
    using fl_eval [of "- 2" "3 * (5404319552844595 / 36028797018963968)"]
    by (simp add: rne_def floor_rat_numeral)
  finally have s1: "js_mul (Num 3) (Num (lit (15 / 100))) =
      Num (2026619832316723 / 4503599627370496)" .
  have s2: "js_add (Num 300) (Num 0) = Num 300"
    using fl_int [of 300] by simp
  have s3: "js_div (Num 300) (Num 1000) = Num (5404319552844595 / 18014398509481984)"
    using fl_eval [of "- 2" "300 / 1000"] by (simp add: rne_def floor_rat_numeral)
  have s4: "js_mul (Num (2026619832316723 / 4503599627370496))
        (Num (5404319552844595 / 18014398509481984)) =
      Num (4863887597560135 / 36028797018963968)"
    using fl_eval [of "- 3"
        "2026619832316723 / 4503599627370496 * (5404319552844595 / 18014398509481984)"]
    by (simp add: rne_def floor_rat_numeral)
  have s5: "js_mul (Num (4863887597560135 / 36028797018963968)) (Num 100) =
      Num (7599824371187711 / 562949953421312)"
    using fl_eval [of 3 "4863887597560135 / 36028797018963968 * 100"]
    by (simp add: rne_def floor_rat_numeral)
  have s6: "Math_round (Num (7599824371187711 / 562949953421312)) = Num 13"
    by (simp add: floor_rat_numeral)
  have s7: "js_div (Num 13) (Num 100) = Num (1170935903116329 / 9007199254740992)"
    using fl_eval [of "- 3" "13 / 100"] by (simp add: rne_def floor_rat_numeral)
  show ?thesis
    by (simp only: carbon_formula_def round_to_cents_def s1 s2 s3 s4 s5 s6 s7)
qed

lemma lit_13: "lit (13 / 100) = 1170935903116329 / 9007199254740992"
  using nearest_eval [of "- 3" "13 / 100"] by (simp add: lit_def rne_def floor_rat_numeral)

text \<open>
  Claim C1, as amended. For a shipment with non-zero distance and quantity and a transport
  mode of the table, the calculator returns the carbon formula computed in binary64:
  distance times emission factor times total weight in tons, each operation rounded,
  then \<open>Math.round\<close> of the hundredfold divided by 100 (and 0 where that is \<open>NaN\<close>). The
  factor is the binary64 value of the specification's decimal, a missing vehicle type
  counting as truck and a vehicle type without an entry under diesel, electric or hybrid
  giving the diesel truck factor; a missing packaging weight counts as 0. The shipment of
  500 units over 100 km by diesel truck gives 7.5.
\<close>

theorem carbon_footprint_formula:
  "(distanceKm s = Some (Num d) \<and> quantity s = Some (Num q) \<and> d \<noteq> 0 \<and> q \<noteq> 0 \<and>
    transportMode s = Some m \<and>
    (packagingWeight s = None \<and> p = 0 \<or> packagingWeight s = Some (Num p)) \<longrightarrow>
    calculateCarbonFootprint s =
      (let r = carbon_formula d (lit (spec_emissionFactor m (spec_vehicle (vehicleType s)))) q p
       in if r = NaN then Num 0 else r))
   \<and> calculateCarbonFootprint
        \<lparr>quantity = Some (Num 500), distanceKm = Some (Num 100), transportMode = Some Diesel,
         vehicleType = Some Truck, packagingWeight = Some (Num 0)\<rparr> = Num (75 / 10)"
proof (intro conjI impI)
  assume "distanceKm s = Some (Num d) \<and> quantity s = Some (Num q) \<and> d \<noteq> 0 \<and> q \<noteq> 0 \<and>
    transportMode s = Some m \<and>
    (packagingWeight s = None \<and> p = 0 \<or> packagingWeight s = Some (Num p))"
  then show "calculateCarbonFootprint s =
      (let r = carbon_formula d (lit (spec_emissionFactor m (spec_vehicle (vehicleType s)))) q p
       in if r = NaN then Num 0 else r)"
    using carbon_finite [of s d q m p] by (simp add: selectEmissionFactor_table js_or_zero Let_def)
next
  let ?s = "\<lparr>quantity = Some (Num 500), distanceKm = Some (Num 100), transportMode = Some Diesel,
         vehicleType = Some Truck, packagingWeight = Some (Num 0)\<rparr>"
  have "calculateCarbonFootprint ?s =
      js_or (carbon_formula 100 (selectEmissionFactor Diesel (spec_vehicle (vehicleType ?s))) 500 0)
        (Num 0)"
    using carbon_finite [of ?s 100 500 Diesel 0] by simp
  also have "selectEmissionFactor Diesel (spec_vehicle (vehicleType ?s)) = lit (15 / 100)"
    by (simp add: selectEmissionFactor_table spec_vehicle_def)
  finally show "calculateCarbonFootprint ?s = Num (75 / 10)"
    using carbon_formula_example by (simp add: js_or_def)
qed

theorem carbon_footprint_formula_witness:
  "(200 :: rat) \<noteq> 0 \<and> (1000 :: rat) \<noteq> 0 \<and>
   calculateCarbonFootprint
     \<lparr>quantity = Some (Num 1000), distanceKm = Some (Num 200), transportMode = Some Hybrid,
      vehicleType = Some Plane, packagingWeight = None\<rparr> = Num 30"
proof -
  have "spec_emissionFactor Hybrid (spec_vehicle (Some Plane)) = 15 / 100"
    by (simp add: spec_vehicle_def)
  then have "carbon_formula 200 (lit (spec_emissionFactor Hybrid (spec_vehicle (Some Plane)))) 1000 0
      = Num 30"
    by (simp only: carbon_formula_witness_value)
  then show ?thesis
    using carbon_footprint_formula
      [of "\<lparr>quantity = Some (Num 1000), distanceKm = Some (Num 200), transportMode = Some Hybrid,
        vehicleType = Some Plane, packagingWeight = None\<rparr>" 200 1000 Hybrid 0]
    by simp
qed

text \<open>
  The result is not always the exact product rounded to two decimals. For 300 units over
  3 km by diesel truck the exact product is 0.135, which rounds to 0.14; the binary64
  product times 100 is 13.499999999999998, and the calculator returns 0.13.
\<close>

theorem carbon_footprint_formula_counterexample:
  "calculateCarbonFootprint
     \<lparr>quantity = Some (Num 300), distanceKm = Some (Num 3), transportMode = Some Diesel,
      vehicleType = Some Truck, packagingWeight = Some (Num 0)\<rparr> = Num (lit (13 / 100)) \<and>
   round2 (3 * spec_emissionFactor Diesel Truck * ((300 + 0) / 1000)) = 14 / 100 \<and>
   lit (13 / 100) < 14 / 100"
proof (intro conjI)
  let ?s = "\<lparr>quantity = Some (Num 300), distanceKm = Some (Num 3), transportMode = Some Diesel,
      vehicleType = Some Truck, packagingWeight = Some (Num 0)\<rparr>"
  have "calculateCarbonFootprint ?s =
      js_or (carbon_formula 3 (selectEmissionFactor Diesel (spec_vehicle (vehicleType ?s))) 300 0)
        (Num 0)"
    using carbon_finite [of ?s 3 300 Diesel 0] by simp
  also have "selectEmissionFactor Diesel (spec_vehicle (vehicleType ?s)) = lit (15 / 100)"
    by (simp add: selectEmissionFactor_table spec_vehicle_def)
  finally show "calculateCarbonFootprint ?s = Num (lit (13 / 100))"
    using carbon_formula_cent_off by (simp add: lit_13 js_or_def)
next
  show "round2 (3 * spec_emissionFactor Diesel Truck * ((300 + 0) / 1000)) = 14 / 100"
    by (simp add: round2_def floor_rat_numeral)
next
  show "lit (13 / 100) < 14 / 100"
    by (simp add: lit_13)
qed

lemma not_negative_fl: "0 \<le> x \<Longrightarrow> not_negative (fl x)"
  using fl_nonneg [of x] by (cases "fl x") (simp_all add: not_negative_def)

lemma not_negative_add: "not_negative x \<Longrightarrow> not_negative y \<Longrightarrow> not_negative (js_add x y)"
  by (cases x; cases y) (simp_all add: not_negative_def not_negative_fl [unfolded not_negative_def] not_less)

lemma not_negative_mul: "not_negative x \<Longrightarrow> not_negative y \<Longrightarrow> not_negative (js_mul x y)"
  by (cases x; cases y)
    (auto simp add: not_negative_def signed_inf_def not_less
      not_negative_fl [unfolded not_negative_def])

lemma not_negative_div: "not_negative x \<Longrightarrow> 0 < c \<Longrightarrow> not_negative (js_div x (Num c))"
  by (cases x)
    (auto simp add: not_negative_def signed_inf_def not_less
      not_negative_fl [unfolded not_negative_def])

lemma not_negative_round: "not_negative x \<Longrightarrow> not_negative (Math_round x)"
  by (cases x) (auto simp add: not_negative_def not_less)

lemma not_negative_or: "not_negative x \<Longrightarrow> not_negative (js_or x (Num 0))"
  by (simp add: js_or_def not_negative_def)

lemma not_negative_Number: "nonneg_field v \<Longrightarrow> not_negative (Number v)"
  by (cases v) (simp_all add: nonneg_field_def Number_def not_negative_def)

lemma js_ge_or_zero: "not_negative x \<Longrightarrow> js_ge (js_or x (Num 0)) (Num 0)"
  by (cases x) (auto simp add: js_or_def not_negative_def)

lemma carbon_body_returns: "\<exists>r. carbonFootprintBody s = Inr r"
  by (simp add: carbonFootprintBody_def Let_def split: option.split)

lemma carbon_required_missing:
  "falsy (distanceKm s) \<or> transportMode s = None \<or> falsy (quantity s) \<Longrightarrow>
   calculateCarbonFootprint s = Num 0"
  by (simp add: calculateCarbonFootprint_def carbonFootprintBody_def)

lemma carbon_not_negative:
  assumes "nonneg_field (distanceKm s)" and "nonneg_field (quantity s)"
    and "nonneg_field (packagingWeight s)"
  shows "js_ge (calculateCarbonFootprint s) (Num 0)"
proof (cases "falsy (distanceKm s) \<or> transportMode s = None \<or> falsy (quantity s)")
  case True
  then show ?thesis by (simp add: carbon_required_missing)
next
  case False
  then obtain m where m: "transportMode s = Some m" by auto
  define distance where "distance = js_or (Number (distanceKm s)) (Num 0)"
  define qty where "qty = js_or (Number (quantity s)) (Num 0)"
  define packaging where "packaging = js_or (Number (packagingWeight s)) (Num 0)"
  define ef where "ef = selectEmissionFactor m (case vehicleType s of None \<Rightarrow> Truck | Some v \<Rightarrow> v)"
  define emissions where
    "emissions = js_mul (js_mul distance (Num ef)) (js_div (js_add qty packaging) (Num 1000))"
  define result where "result = js_div (Math_round (js_mul emissions (Num 100))) (Num 100)"
  have eq: "calculateCarbonFootprint s = js_or result (Num 0)"
    using False m
    by (simp add: calculateCarbonFootprint_def carbonFootprintBody_def Let_def distance_def
        qty_def packaging_def ef_def emissions_def result_def)
  have "not_negative distance" "not_negative qty" "not_negative packaging"
    using assms by (simp_all add: distance_def qty_def packaging_def not_negative_or
        not_negative_Number)
  moreover have "not_negative (Num ef)"
    using selectEmissionFactor_pos [of m] by (simp add: ef_def not_negative_def not_less less_imp_le)
  ultimately have "not_negative emissions"
    by (simp add: emissions_def not_negative_mul not_negative_div not_negative_add)
  moreover have "not_negative (Num 100)" by (simp add: not_negative_def)
  ultimately have "not_negative result"
    by (simp add: result_def not_negative_mul not_negative_div not_negative_round)
  then show ?thesis by (simp add: eq js_ge_or_zero)
qed

text \<open>
  Claim C6, as amended. The calculator returns a value for every shipment: the body of the
  \<open>try\<close> block returns normally. The result is exactly 0 whenever the distance, the
  transport mode or the quantity is missing, zero or otherwise falsy. The result is at
  least 0 for every shipment whose distance, quantity and packaging weight, where present,
  are not negative.
\<close>

theorem carbon_footprint_total_nonneg:
  "(\<exists>r. carbonFootprintBody s = Inr r \<and> calculateCarbonFootprint s = r) \<and>
   (falsy (distanceKm s) \<or> transportMode s = None \<or> falsy (quantity s) \<longrightarrow>
      calculateCarbonFootprint s = Num 0) \<and>
   (nonneg_field (distanceKm s) \<and> nonneg_field (quantity s) \<and> nonneg_field (packagingWeight s) \<longrightarrow>
      js_ge (calculateCarbonFootprint s) (Num 0))"
proof (intro conjI impI)
  show "\<exists>r. carbonFootprintBody s = Inr r \<and> calculateCarbonFootprint s = r"
    using carbon_body_returns [of s] by (auto simp add: calculateCarbonFootprint_def)
next
  assume "falsy (distanceKm s) \<or> transportMode s = None \<or> falsy (quantity s)"
  then show "calculateCarbonFootprint s = Num 0" by (rule carbon_required_missing)
next
  assume "nonneg_field (distanceKm s) \<and> nonneg_field (quantity s) \<and> nonneg_field (packagingWeight s)"
  then show "js_ge (calculateCarbonFootprint s) (Num 0)" by (simp add: carbon_not_negative)
qed

theorem carbon_footprint_total_nonneg_witness:
  "falsy (distanceKm \<lparr>quantity = Some (Num 0), distanceKm = None, transportMode = Some Air,
      vehicleType = None, packagingWeight = Some (Num 3)\<rparr>) \<and>
   calculateCarbonFootprint \<lparr>quantity = Some (Num 0), distanceKm = None, transportMode = Some Air,
      vehicleType = None, packagingWeight = Some (Num 3)\<rparr> = Num 0 \<and>
   nonneg_field (Some (Num 40)) \<and> nonneg_field (Some (Num 250)) \<and> nonneg_field None \<and>
   js_ge (calculateCarbonFootprint \<lparr>quantity = Some (Num 250), distanceKm = Some (Num 40),
      transportMode = Some Air, vehicleType = None, packagingWeight = None\<rparr>) (Num 0)"
  using carbon_footprint_total_nonneg
    [of "\<lparr>quantity = Some (Num 0), distanceKm = None, transportMode = Some Air,
      vehicleType = None, packagingWeight = Some (Num 3)\<rparr>"]
    carbon_footprint_total_nonneg
    [of "\<lparr>quantity = Some (Num 250), distanceKm = Some (Num 40),
      transportMode = Some Air, vehicleType = None, packagingWeight = None\<rparr>"]
  by (simp add: falsy_def nonneg_field_def not_negative_def)

lemma floor_rat_neg_numeral:
  "\<lfloor>- (numeral a / numeral b) :: rat\<rfloor> = - numeral a div numeral b"
  using floor_divide_of_int_eq [of "- numeral a" "numeral b", where ?'a = rat] by simp

lemma carbon_formula_negative: "carbon_formula (- 100) (lit (15 / 100)) 500 0 = Num (- (15 / 2))"
proof -
  have "js_mul (Num (- 100)) (Num (lit (15 / 100))) =
      fl (- (100 * (5404319552844595 / 36028797018963968)))"
    by (simp only: js_mul.simps lit_15 mult_minus_left)
  also have "\<dots> = js_neg (fl (100 * (5404319552844595 / 36028797018963968)))"
    by (rule fl_minus)
  also have "fl (100 * (5404319552844595 / 36028797018963968)) = Num 15"
    using fl_eval [of 3 "100 * (5404319552844595 / 36028797018963968)"]
    by (simp add: rne_def floor_rat_numeral)
  finally have s1: "js_mul (Num (- 100)) (Num (lit (15 / 100))) = Num (- 15)" by simp
  have s2: "js_add (Num 500) (Num 0) = Num 500"
    using fl_int [of 500] by simp
  have s3: "js_div (Num 500) (Num 1000) = Num (1 / 2)"
    using fl_eval [of "- 1" "1 / 2"] by (simp add: rne_def)
  have h: "fl (- (15 / 2)) = Num (- (15 / 2))"
    using fl_eval [of 2 "15 / 2"] by (simp add: fl_minus rne_def)
  have s4: "js_mul (Num (- 15)) (Num (1 / 2)) = Num (- (15 / 2))"
    using h by simp
  have s5: "js_mul (Num (- (15 / 2))) (Num 100) = Num (- 750)"
    using fl_int [of "- 750"] by simp
  have s6: "Math_round (Num (- 750)) = Num (- 750)"
    by (simp add: floor_rat_neg_numeral)
  have s7: "js_div (Num (- 750)) (Num 100) = Num (- (15 / 2))"
    using h by simp
  show ?thesis
    by (simp only: carbon_formula_def round_to_cents_def s1 s2 s3 s4 s5 s6 s7)
qed

text \<open>
  A negative distance is not rejected: the shipment of 500 units over -100 km by diesel
  truck gives -7.5, so the result is not at least 0 for every shipment input.
\<close>

theorem carbon_footprint_negative_counterexample:
  "calculateCarbonFootprint \<lparr>quantity = Some (Num 500), distanceKm = Some (Num (- 100)),
      transportMode = Some Diesel, vehicleType = Some Truck, packagingWeight = Some (Num 0)\<rparr>
     = Num (- (75 / 10)) \<and>
   \<not> js_ge (calculateCarbonFootprint \<lparr>quantity = Some (Num 500), distanceKm = Some (Num (- 100)),
      transportMode = Some Diesel, vehicleType = Some Truck, packagingWeight = Some (Num 0)\<rparr>)
     (Num 0)"
proof -
  let ?s = "\<lparr>quantity = Some (Num 500), distanceKm = Some (Num (- 100)),
      transportMode = Some Diesel, vehicleType = Some Truck, packagingWeight = Some (Num 0)\<rparr>"
  have "calculateCarbonFootprint ?s =
      js_or (carbon_formula (- 100) (selectEmissionFactor Diesel (spec_vehicle (vehicleType ?s)))
        500 0) (Num 0)"
    using carbon_finite [of ?s "- 100" 500 Diesel 0] by simp
  also have "selectEmissionFactor Diesel (spec_vehicle (vehicleType ?s)) = lit (15 / 100)"
    by (simp add: selectEmissionFactor_table spec_vehicle_def)
  finally have "calculateCarbonFootprint ?s = Num (- (75 / 10))"
    using carbon_formula_negative by (simp add: js_or_def)
  then show ?thesis by simp
qed

lemma fl_not_NaN: "fl x \<noteq> NaN"
  by (simp add: fl_def Let_def)

lemma js_le_PosInf: "z \<noteq> NaN \<Longrightarrow> js_le z PosInf"
  by (cases z) simp_all

lemma js_le_refl: "z \<noteq> NaN \<Longrightarrow> js_le z z"
  by (cases z) simp_all

lemma nonneg_cases:
  assumes "js_le (Num 0) x"
  obtains (fin) a where "x = Num a" "0 \<le> a" | (inf) "x = PosInf"
  using assms by (cases x) simp_all

lemma below_finite:
  assumes "js_le (Num 0) x" and "js_le x (Num b)"
  obtains a where "x = Num a" "0 \<le> a" "a \<le> b"
  using assms by (cases x) simp_all

text \<open>
  The product of two values that are not negative is \<open>NaN\<close> only for zero times
  infinity; otherwise it is not negative and monotone in both factors.
\<close>

lemma mul_nonneg:
  assumes "js_le (Num 0) x" and "js_le (Num 0) y" and "js_mul x y \<noteq> NaN"
  shows "js_le (Num 0) (js_mul x y)"
  using assms
  by (cases x; cases y) (auto simp add: signed_inf_def fl_nonneg split: if_splits)

lemma mul_mono:
  assumes x: "js_le (Num 0) x" "js_le x x'" and y: "js_le (Num 0) y" "js_le y y'"
    and n: "js_mul x y \<noteq> NaN" "js_mul x' y' \<noteq> NaN"
  shows "js_le (js_mul x y) (js_mul x' y')"
proof (cases "\<exists>a' b'. x' = Num a' \<and> y' = Num b'")
  case True
  then obtain a' b' where x': "x' = Num a'" and y': "y' = Num b'" by auto
  obtain a where a: "x = Num a" "0 \<le> a" "a \<le> a'" using x x' by (auto elim: below_finite)
  obtain b where b: "y = Num b" "0 \<le> b" "b \<le> b'" using y y' by (auto elim: below_finite)
  have "a * b \<le> a' * b'" using a b by (intro mult_mono) simp_all
  then show ?thesis by (simp add: a b x' y' fl_mono)
next
  case False
  have x'0: "js_le (Num 0) x'" using x by (cases x; cases x') simp_all
  have y'0: "js_le (Num 0) y'" using y by (cases y; cases y') simp_all
  have "js_mul x' y' = PosInf"
    using False x'0 y'0 n(2)
    by (cases x'; cases y') (auto simp add: signed_inf_def split: if_splits)
  then show ?thesis using n(1) by (simp add: js_le_PosInf)
qed

lemma mul_NaN_below:
  assumes x: "js_le (Num 0) x" "js_le x x'" and y: "js_le (Num 0) y" "js_le y y'"
    and n: "js_mul x y \<noteq> NaN" "js_mul x' y' = NaN"
  shows "js_mul x y = Num 0"
  using assms
  by (cases x; cases x'; cases y; cases y')
    (auto simp add: signed_inf_def fl_not_NaN fl_zero split: if_splits)

lemma div_const_mono:
  assumes "js_le (Num 0) x" and "js_le x y" and "0 < c"
  shows "js_le (js_div x (Num c)) (js_div y (Num c)) \<and> js_le (Num 0) (js_div x (Num c))"
  using assms
  by (cases x; cases y)
    (auto simp add: signed_inf_def fl_mono fl_nonneg divide_right_mono js_le_PosInf fl_not_NaN)

lemma round_mono:
  assumes "js_le (Num 0) x" and "js_le x y"
  shows "js_le (Math_round x) (Math_round y) \<and> js_le (Num 0) (Math_round x)"
  using assms by (cases x; cases y) (auto simp add: floor_mono)

lemma mul_const_mono:
  assumes "js_le (Num 0) x" and "js_le x y" and "0 < c"
  shows "js_le (js_mul x (Num c)) (js_mul y (Num c)) \<and> js_le (Num 0) (js_mul x (Num c))"
  using assms
  by (cases x; cases y)
    (auto simp add: signed_inf_def fl_mono fl_nonneg js_le_PosInf fl_not_NaN)

lemma round_to_cents_mono:
  assumes "js_le (Num 0) x" and "js_le x y"
  shows "js_le (round_to_cents x) (round_to_cents y) \<and> js_le (Num 0) (round_to_cents x)"
proof -
  note 1 = mul_const_mono [OF assms, of 100]
  have 2: "js_le (Math_round (js_mul x (Num 100))) (Math_round (js_mul y (Num 100))) \<and>
      js_le (Num 0) (Math_round (js_mul x (Num 100)))"
    using 1 by (intro round_mono) simp_all
  show ?thesis
    unfolding round_to_cents_def using 2 by (intro div_const_mono) simp_all
qed

lemma round_to_cents_zero: "round_to_cents (Num 0) = Num 0"
proof -
  have "\<lfloor>1 / 2 :: rat\<rfloor> = 0" by linarith
  then show ?thesis by (simp add: round_to_cents_def fl_zero)
qed

lemma round_to_cents_NaN: "round_to_cents NaN = NaN"
  by (simp add: round_to_cents_def)

lemma js_le_not_NaN: "js_le x y \<Longrightarrow> x \<noteq> NaN \<and> y \<noteq> NaN"
  by (cases x; cases y) simp_all

text \<open>
  The result as a function of the two factors of the product: the emissions of the
  distance and the weight in tons.
\<close>

lemma cents_or_zero_nonneg:
  assumes "js_le (Num 0) a" and "js_le (Num 0) b"
  shows "js_le (Num 0) (js_or (round_to_cents (js_mul a b)) (Num 0))"
proof (cases "js_mul a b = NaN")
  case True
  then show ?thesis by (simp add: round_to_cents_NaN js_or_zero)
next
  case False
  then have m: "js_le (Num 0) (js_mul a b)" using assms by (intro mul_nonneg)
  then have "js_le (Num 0) (round_to_cents (js_mul a b))"
    using round_to_cents_mono [of "js_mul a b" "js_mul a b"] False by (simp add: js_le_refl)
  then show ?thesis using js_le_not_NaN [of "Num 0"] by (simp add: js_or_zero)
qed

lemma cents_or_zero_mono:
  assumes a: "js_le (Num 0) a" "js_le a a'" and b: "js_le (Num 0) b" "js_le b b'"
  shows "js_le (js_or (round_to_cents (js_mul a b)) (Num 0))
    (js_or (round_to_cents (js_mul a' b')) (Num 0))"
proof -
  have a': "js_le (Num 0) a'" using a by (cases a; cases a') simp_all
  have b': "js_le (Num 0) b'" using b by (cases b; cases b') simp_all
  note r2 = cents_or_zero_nonneg [OF a' b']
  show ?thesis
  proof (cases "js_mul a b = NaN")
    case True
    then show ?thesis using r2 by (simp add: round_to_cents_NaN js_or_zero)
  next
    case n1: False
    show ?thesis
    proof (cases "js_mul a' b' = NaN")
      case True
      then have "js_mul a b = Num 0" using a b n1 by (intro mul_NaN_below)
      then show ?thesis using True by (simp add: round_to_cents_zero round_to_cents_NaN js_or_zero)
    next
      case n2: False
      have le: "js_le (js_mul a b) (js_mul a' b')" using a b n1 n2 by (intro mul_mono)
      have m: "js_le (Num 0) (js_mul a b)" using a b n1 by (intro mul_nonneg)
      have "js_le (round_to_cents (js_mul a b)) (round_to_cents (js_mul a' b'))"
        using round_to_cents_mono [OF m le] by simp
      then show ?thesis
        using js_le_not_NaN [of "round_to_cents (js_mul a b)" "round_to_cents (js_mul a' b')"]
        by (simp add: js_or_zero)
    qed
  qed
qed

lemma cents_or_zero_at_zero:
  assumes "js_le (Num 0) b"
  shows "js_or (round_to_cents (js_mul (Num 0) b)) (Num 0) = Num 0"
  using assms
  by (cases b) (simp_all add: fl_zero round_to_cents_zero round_to_cents_NaN js_or_zero)

lemma carbon_mono:
  assumes s1: "distanceKm s1 = Some (Num d1)" "quantity s1 = Some (Num q1)"
      "packagingWeight s1 = None \<and> p1 = 0 \<or> packagingWeight s1 = Some (Num p1)"
    and s2: "distanceKm s2 = Some (Num d2)" "quantity s2 = Some (Num q2)"
      "packagingWeight s2 = None \<and> p2 = 0 \<or> packagingWeight s2 = Some (Num p2)"
    and same: "transportMode s2 = transportMode s1" "vehicleType s2 = vehicleType s1"
    and bounds: "0 \<le> d1" "d1 \<le> d2" "0 \<le> q1" "0 \<le> p1" "q1 + p1 \<le> q2 + p2"
    and q2: "q1 = 0 \<or> q2 \<noteq> 0"
  shows "js_le (calculateCarbonFootprint s1) (calculateCarbonFootprint s2)"
proof (cases "transportMode s1")
  case None
  then show ?thesis using same by (simp add: carbon_required_missing)
next
  case (Some m)
  define ef where "ef = selectEmissionFactor m (spec_vehicle (vehicleType s1))"
  have ef: "0 < ef" by (simp add: ef_def selectEmissionFactor_pos)
  define a1 where "a1 = js_mul (Num d1) (Num ef)"
  define a2 where "a2 = js_mul (Num d2) (Num ef)"
  define b1 where "b1 = js_div (js_add (Num q1) (Num p1)) (Num 1000)"
  define b2 where "b2 = js_div (js_add (Num q2) (Num p2)) (Num 1000)"
  define r1 where "r1 = js_or (round_to_cents (js_mul a1 b1)) (Num 0)"
  define r2 where "r2 = js_or (round_to_cents (js_mul a2 b2)) (Num 0)"
  have "d1 * ef \<le> d2 * ef" "0 \<le> d1 * ef" using bounds ef by simp_all
  then have a: "js_le (Num 0) a1" "js_le a1 a2"
    by (simp_all add: a1_def a2_def fl_nonneg fl_mono)
  have w: "js_le (Num 0) (js_add (Num q1) (Num p1))"
      "js_le (js_add (Num q1) (Num p1)) (js_add (Num q2) (Num p2))"
    using bounds by (simp_all add: fl_nonneg fl_mono)
  have b: "js_le (Num 0) b1" "js_le b1 b2"
    using div_const_mono [OF w, of 1000] by (simp_all add: b1_def b2_def)
  have a2: "js_le (Num 0) a2" using a by (cases a1; cases a2) simp_all
  have b2: "js_le (Num 0) b2" using b by (cases b1; cases b2) simp_all
  have c1: "calculateCarbonFootprint s1 = (if d1 = 0 \<or> q1 = 0 then Num 0 else r1)"
    using carbon_finite [OF s1(1,2) Some s1(3)]
    by (simp add: ef_def r1_def a1_def b1_def carbon_formula_def)
  have c2: "calculateCarbonFootprint s2 = (if d2 = 0 \<or> q2 = 0 then Num 0 else r2)"
    using carbon_finite [OF s2(1,2) _ s2(3), of m] Some same
    by (simp add: ef_def r2_def a2_def b2_def carbon_formula_def)
  have z1: "d1 = 0 \<Longrightarrow> r1 = Num 0"
    using cents_or_zero_at_zero [OF b(1)] by (simp add: r1_def a1_def fl_zero)
  have z2: "d2 = 0 \<Longrightarrow> r2 = Num 0"
    using cents_or_zero_at_zero [OF b2] by (simp add: r2_def a2_def fl_zero)
  have e1: "calculateCarbonFootprint s1 = (if q1 = 0 then Num 0 else r1)"
    using c1 z1 by auto
  have e2: "calculateCarbonFootprint s2 = (if q2 = 0 then Num 0 else r2)"
    using c2 z2 by auto
  have n2: "js_le (Num 0) r2" unfolding r2_def using a2 b2 by (rule cents_or_zero_nonneg)
  have le: "js_le r1 r2" unfolding r1_def r2_def using a b by (intro cents_or_zero_mono)
  show ?thesis
  proof (cases "q1 = 0")
    case True
    then show ?thesis using e1 e2 n2 by simp
  next
    case False
    then have "q2 \<noteq> 0" using q2 by simp
    then show ?thesis using e1 e2 False le by simp
  qed
qed

text \<open>
  Claim C9, as amended. With the transport mode and vehicle type fixed and finite
  non-negative inputs, the result does not decrease when the distance grows (quantity and
  packaging weight fixed), and it does not decrease when the total weight, quantity plus
  packaging weight, grows (distance fixed) provided the quantity is positive in both
  shipments. The order is that of \<open><=\<close> on Numbers, so a result that has overflowed to
  infinity is covered and neither result is \<open>NaN\<close>.
\<close>

theorem carbon_footprint_monotone:
  "(distanceKm s = Some (Num d1) \<and> quantity s = Some (Num q) \<and>
    (packagingWeight s = None \<and> p = 0 \<or> packagingWeight s = Some (Num p)) \<and>
    0 \<le> d1 \<and> d1 \<le> d2 \<and> 0 \<le> q \<and> 0 \<le> p \<longrightarrow>
    js_le (calculateCarbonFootprint s)
      (calculateCarbonFootprint (s\<lparr>distanceKm := Some (Num d2)\<rparr>))) \<and>
   (distanceKm s = Some (Num d) \<and> quantity s = Some (Num q1) \<and>
    (packagingWeight s = None \<and> p1 = 0 \<or> packagingWeight s = Some (Num p1)) \<and>
    0 \<le> d \<and> 0 < q1 \<and> 0 < q2 \<and> 0 \<le> p1 \<and> 0 \<le> p2 \<and> q1 + p1 \<le> q2 + p2 \<longrightarrow>
    js_le (calculateCarbonFootprint s)
      (calculateCarbonFootprint
        (s\<lparr>quantity := Some (Num q2), packagingWeight := Some (Num p2)\<rparr>)))"
proof (intro conjI impI)
  assume h: "distanceKm s = Some (Num d1) \<and> quantity s = Some (Num q) \<and>
    (packagingWeight s = None \<and> p = 0 \<or> packagingWeight s = Some (Num p)) \<and>
    0 \<le> d1 \<and> d1 \<le> d2 \<and> 0 \<le> q \<and> 0 \<le> p"
  show "js_le (calculateCarbonFootprint s)
      (calculateCarbonFootprint (s\<lparr>distanceKm := Some (Num d2)\<rparr>))"
    using h by (intro carbon_mono [of s d1 q p _ d2 q p]) auto
next
  assume h: "distanceKm s = Some (Num d) \<and> quantity s = Some (Num q1) \<and>
    (packagingWeight s = None \<and> p1 = 0 \<or> packagingWeight s = Some (Num p1)) \<and>
    0 \<le> d \<and> 0 < q1 \<and> 0 < q2 \<and> 0 \<le> p1 \<and> 0 \<le> p2 \<and> q1 + p1 \<le> q2 + p2"
  show "js_le (calculateCarbonFootprint s)
      (calculateCarbonFootprint
        (s\<lparr>quantity := Some (Num q2), packagingWeight := Some (Num p2)\<rparr>))"
    using h by (intro carbon_mono [of s d q1 p1 _ d q2 p2]) auto
qed

text \<open>
  A quantity of zero sends the result to 0 whatever the packaging weight is: at 100 km by
  diesel truck, 500 units without packaging give 7.5, and no units with a packaging weight
  of 1000 give 0, although the total weight has grown from 500 to 1000.
\<close>

theorem carbon_footprint_monotone_counterexample:
  "calculateCarbonFootprint \<lparr>quantity = Some (Num 500), distanceKm = Some (Num 100),
      transportMode = Some Diesel, vehicleType = Some Truck, packagingWeight = Some (Num 0)\<rparr>
     = Num (75 / 10) \<and>
   calculateCarbonFootprint \<lparr>quantity = Some (Num 0), distanceKm = Some (Num 100),
      transportMode = Some Diesel, vehicleType = Some Truck, packagingWeight = Some (Num 1000)\<rparr>
     = Num 0 \<and>
   (500 + 0 :: rat) \<le> 0 + 1000 \<and> \<not> ((75 / 10 :: rat) \<le> 0)"
proof -
  let ?s1 = "\<lparr>quantity = Some (Num 500), distanceKm = Some (Num 100),
      transportMode = Some Diesel, vehicleType = Some Truck, packagingWeight = Some (Num 0)\<rparr>"
  let ?s2 = "\<lparr>quantity = Some (Num 0), distanceKm = Some (Num 100),
      transportMode = Some Diesel, vehicleType = Some Truck, packagingWeight = Some (Num 1000)\<rparr>"
  have "calculateCarbonFootprint ?s1 =
      js_or (carbon_formula 100 (selectEmissionFactor Diesel (spec_vehicle (vehicleType ?s1))) 500 0)
        (Num 0)"
    using carbon_finite [of ?s1 100 500 Diesel 0] by simp
  also have "selectEmissionFactor Diesel (spec_vehicle (vehicleType ?s1)) = lit (15 / 100)"
    by (simp add: selectEmissionFactor_table spec_vehicle_def)
  finally have "calculateCarbonFootprint ?s1 = Num (75 / 10)"
    using carbon_formula_example by (simp add: js_or_def)
  moreover have "calculateCarbonFootprint ?s2 = Num 0"
    using carbon_finite [of ?s2 100 0 Diesel 1000] by simp
  ultimately show ?thesis by simp
qed

theorem carbon_footprint_monotone_witness:
  "js_le
     (calculateCarbonFootprint \<lparr>quantity = Some (Num 500), distanceKm = Some (Num 100),
        transportMode = Some Diesel, vehicleType = Some Truck, packagingWeight = Some (Num 0)\<rparr>)
     (calculateCarbonFootprint \<lparr>quantity = Some (Num 500), distanceKm = Some (Num 300),
        transportMode = Some Diesel, vehicleType = Some Truck, packagingWeight = Some (Num 0)\<rparr>) \<and>
   js_le
     (calculateCarbonFootprint \<lparr>quantity = Some (Num 500), distanceKm = Some (Num 100),
        transportMode = Some Diesel, vehicleType = Some Truck, packagingWeight = Some (Num 0)\<rparr>)
     (calculateCarbonFootprint \<lparr>quantity = Some (Num 400), distanceKm = Some (Num 100),
        transportMode = Some Diesel, vehicleType = Some Truck, packagingWeight = Some (Num 150)\<rparr>)"
  using carbon_footprint_monotone
    [of "\<lparr>quantity = Some (Num 500), distanceKm = Some (Num 100),
      transportMode = Some Diesel, vehicleType = Some Truck, packagingWeight = Some (Num 0)\<rparr>"
      100 500 0 300 100 500 0 400 150]
  by simp

section \<open>Properties of the green score and the ESG score\<close>

text \<open>Sums and differences of integers of moderate size are exact in binary64.\<close>

lemma fl_Ints: "x \<in> \<int> \<Longrightarrow> \<bar>x\<bar> \<le> 2 ^ 52 \<Longrightarrow> fl x = Num x"
proof -
  assume "x \<in> \<int>" and b: "\<bar>x\<bar> \<le> 2 ^ 52"
  then obtain n where x: "x = of_int n" by (auto elim: Ints_cases)
  have "(of_int \<bar>n\<bar> :: rat) \<le> of_int (2 ^ 52)" using b by (simp add: x)
  then have "\<bar>n\<bar> \<le> 2 ^ 52" by (simp only: of_int_le_iff)
  then have "\<bar>n\<bar> < 2 ^ 53" by simp
  then show ?thesis by (simp add: x fl_int)
qed

lemma small_add:
  "x \<in> \<int> \<Longrightarrow> y \<in> \<int> \<Longrightarrow> \<bar>x + y\<bar> \<le> 2 ^ 52 \<Longrightarrow> js_add (Num x) (Num y) = Num (x + y)"
  by (simp add: fl_Ints)

lemma small_sub:
  "x \<in> \<int> \<Longrightarrow> y \<in> \<int> \<Longrightarrow> \<bar>x - y\<bar> \<le> 2 ^ 52 \<Longrightarrow> js_sub (Num x) (Num y) = Num (x - y)"
  by (simp add: js_sub_def fl_Ints)

lemma packaging_lookup:
  "or_else (case t of None \<Rightarrow> None | Some k \<Rightarrow> packagingScores k) 0 = spec_packaging t"
proof (cases t)
  case None
  then show ?thesis by (simp add: or_else_def spec_packaging_def)
next
  case (Some k)
  then show ?thesis by (cases k) (simp_all add: or_else_def spec_packaging_def packagingScores_def)
qed

lemma spec_packaging_bounds: "- 10 \<le> spec_packaging t \<and> spec_packaging t \<le> 25"
  by (simp add: spec_packaging_def split: option.split packagingType.split)

lemma spec_packaging_Ints: "spec_packaging t \<in> \<int>"
  by (simp add: spec_packaging_def split: option.split packagingType.split)

lemma exclusive_carbon_band_range:
  "exclusive_carbon_band c \<in> \<int> \<and> - 15 \<le> exclusive_carbon_band c \<and> exclusive_carbon_band c \<le> 20"
  by (cases c) (simp_all add: exclusive_carbon_band_def js_gt_def)

lemma exclusive_water_band_range:
  "exclusive_water_band w \<in> \<int> \<and> - 10 \<le> exclusive_water_band w \<and> exclusive_water_band w \<le> 15"
  by (cases w) (simp_all add: exclusive_water_band_def js_gt_def)

lemma exclusive_spoilage_band_range:
  "exclusive_spoilage_band r \<in> \<int> \<and> - 10 \<le> exclusive_spoilage_band r \<and>
   exclusive_spoilage_band r \<le> 10"
  by (cases r) (simp_all add: exclusive_spoilage_band_def js_gt_def)

lemma clamp_Num: "Math_max (Num 0) (Math_min (Num 100) (Num x)) = Num (max 0 (min 100 x))"
  by (auto simp add: max_def min_def)

lemma clamp_large: "js_le (Num 100) z \<Longrightarrow> Math_max (Num 0) (Math_min (Num 100) z) = Num 100"
  by (cases z) auto

lemma carbon_step:
  assumes "x \<in> \<int>" and "\<bar>x\<bar> \<le> 1000"
  shows "(if js_lt c (Num 1) then js_add (Num x) (Num 20)
          else if js_lt c (Num 5) then js_add (Num x) (Num 15)
          else if js_lt c (Num 10) then js_add (Num x) (Num 10)
          else if js_gt c (Num 20) then js_sub (Num x) (Num 15)
          else Num x) = Num (x + exclusive_carbon_band c)"
proof -
  have a: "js_add (Num x) (Num 20) = Num (x + 20)" "js_add (Num x) (Num 15) = Num (x + 15)"
    "js_add (Num x) (Num 10) = Num (x + 10)" "js_sub (Num x) (Num 15) = Num (x - 15)"
    using assms by (simp_all add: small_add small_sub del: js_add.simps)
  show ?thesis
    unfolding a by (cases c) (simp_all add: exclusive_carbon_band_def js_gt_def)
qed

lemma water_step:
  assumes "x \<in> \<int>" and "\<bar>x\<bar> \<le> 1000"
  shows "(if js_lt w (Num 10) then js_add (Num x) (Num 15)
          else if js_lt w (Num 50) then js_add (Num x) (Num 10)
          else if js_gt w (Num 100) then js_sub (Num x) (Num 10)
          else Num x) = Num (x + exclusive_water_band w)"
proof -
  have a: "js_add (Num x) (Num 15) = Num (x + 15)" "js_add (Num x) (Num 10) = Num (x + 10)"
    "js_sub (Num x) (Num 10) = Num (x - 10)"
    using assms by (simp_all add: small_add small_sub del: js_add.simps)
  show ?thesis
    unfolding a by (cases w) (simp_all add: exclusive_water_band_def js_gt_def)
qed

lemma spoilage_step:
  assumes "x \<in> \<int>" and "\<bar>x\<bar> \<le> 10 ^ 10"
  shows "(if js_lt r (Num 2) then js_add (Num x) (Num 10)
          else if js_lt r (Num 5) then js_add (Num x) (Num 5)
          else if js_gt r (Num 15) then js_sub (Num x) (Num 10)
          else Num x) = Num (x + exclusive_spoilage_band r)"
proof -
  have a: "js_add (Num x) (Num 10) = Num (x + 10)" "js_add (Num x) (Num 5) = Num (x + 5)"
    "js_sub (Num x) (Num 10) = Num (x - 10)"
    using assms by (simp_all add: small_add small_sub del: js_add.simps)
  show ?thesis
    unfolding a by (cases r) (simp_all add: exclusive_spoilage_band_def js_gt_def)
qed

text \<open>
  The certification bonus is 5 times the length of a list. Up to a billion entries every
  step is exact; beyond, the rounded sum is still far above 100 and the clamp gives 100.
\<close>

lemma large_sum:
  assumes x: "0 \<le> x" and n: "10 ^ 9 \<le> n"
  shows "js_le (Num (10 ^ 9)) (js_add (Num x) (js_mul (Num n) (Num 5)))"
proof -
  have e: "fl (10 ^ 9) = Num (10 ^ 9)" using fl_int [of "10 ^ 9"] by simp
  have "(10 ^ 9 :: rat) \<le> n * 5" using n by simp
  then have m: "js_le (Num (10 ^ 9)) (fl (n * 5))" using fl_mono [of "10 ^ 9" "n * 5"] e by simp
  show ?thesis
  proof (cases "fl (n * 5)")
    case (Num y)
    then have "10 ^ 9 \<le> x + y" using m x by simp
    then show ?thesis using fl_mono [of "10 ^ 9" "x + y"] Num e by simp
  qed (use m in simp_all)
qed

lemma large_branch:
  assumes "js_le (Num (10 ^ 9)) z" and "\<bar>y\<bar> \<le> 10"
  shows "js_le (Num 100) (js_add z (Num y))"
proof (cases z)
  case (Num a)
  have e: "fl 100 = Num 100" using fl_int [of 100] by simp
  have "100 \<le> a + y" using assms Num by simp
  then show ?thesis using fl_mono [of 100 "a + y"] Num e by simp
qed (use assms in simp_all)

lemma green_tail:
  assumes xi: "x \<in> \<int>" and x0: "0 \<le> x" and x1: "x \<le> 1000"
  shows "Math_max (Num 0) (Math_min (Num 100)
      (if js_lt r (Num 2) then js_add (js_add (Num x) (js_mul (Num (of_nat l)) (Num 5))) (Num 10)
       else if js_lt r (Num 5) then js_add (js_add (Num x) (js_mul (Num (of_nat l)) (Num 5))) (Num 5)
       else if js_gt r (Num 15)
         then js_sub (js_add (Num x) (js_mul (Num (of_nat l)) (Num 5))) (Num 10)
       else js_add (Num x) (js_mul (Num (of_nat l)) (Num 5)))) =
    Num (max 0 (min 100 (x + 5 * of_nat l + exclusive_spoilage_band r)))"
proof (cases "l \<le> 10 ^ 9")
  case True
  then have "(of_nat l :: rat) \<le> of_nat (10 ^ 9)" by (simp only: of_nat_le_iff)
  then have l: "(of_nat l :: rat) \<le> 10 ^ 9" by simp
  have m: "js_mul (Num (of_nat l)) (Num 5) = Num (5 * of_nat l)"
    using l by (simp add: fl_Ints mult.commute)
  have s: "js_add (Num x) (Num (5 * of_nat l)) = Num (x + 5 * of_nat l)"
    using xi x0 x1 l by (intro small_add) simp_all
  have t: "(if js_lt r (Num 2) then js_add (Num (x + 5 * of_nat l)) (Num 10)
       else if js_lt r (Num 5) then js_add (Num (x + 5 * of_nat l)) (Num 5)
       else if js_gt r (Num 15) then js_sub (Num (x + 5 * of_nat l)) (Num 10)
       else Num (x + 5 * of_nat l)) = Num (x + 5 * of_nat l + exclusive_spoilage_band r)"
    using xi x0 x1 l by (intro spoilage_step) simp_all
  show ?thesis by (simp only: m s t clamp_Num)
next
  case False
  then have "(of_nat (10 ^ 9) :: rat) \<le> of_nat l" by (simp only: of_nat_le_iff)
  then have l: "(10 ^ 9 :: rat) \<le> of_nat l" by simp
  define z where "z = js_add (Num x) (js_mul (Num (of_nat l)) (Num 5))"
  have z: "js_le (Num (10 ^ 9)) z" unfolding z_def using x0 l by (rule large_sum)
  have b: "js_le (Num 100) (js_add z (Num 10))" "js_le (Num 100) (js_add z (Num 5))"
    "js_le (Num 100) (js_sub z (Num 10))"
    using large_branch [OF z, of 10] large_branch [OF z, of 5] large_branch [OF z, of "- 10"]
    by (simp_all add: js_sub_def)
  have b': "js_le (Num 100) z" using z by (cases z) simp_all
  have "100 \<le> x + 5 * of_nat l + exclusive_spoilage_band r"
    using x0 l exclusive_spoilage_band_range [of r] by simp
  then have r: "max 0 (min 100 (x + 5 * of_nat l + exclusive_spoilage_band r)) = 100" by simp
  show ?thesis
    unfolding z_def [symmetric] r using b b' by (simp add: clamp_large)
qed

lemma green_score_closed_form:
  "calculateGreenScore p =
     Num (max 0 (min 100
       (50 + spec_packaging (packagingType p) +
        exclusive_carbon_band (carbonFootprint (sustainabilityMetrics p)) +
        exclusive_water_band (waterFootprint (sustainabilityMetrics p)) +
        5 * of_nat (length (certifications p)) +
        exclusive_spoilage_band (baseSpoilageRate p))))"
proof -
  define k where "k = spec_packaging (packagingType p)"
  define l where "l = length (certifications p)"
  define c where "c = carbonFootprint (sustainabilityMetrics p)"
  define w where "w = waterFootprint (sustainabilityMetrics p)"
  define r where "r = baseSpoilageRate p"
  note kb = spec_packaging_bounds [of "packagingType p", folded k_def]
    spec_packaging_Ints [of "packagingType p", folded k_def]
  note cb = exclusive_carbon_band_range [of c]
  note wb = exclusive_water_band_range [of w]
  have base: "js_add (Num 50) (Num k) = Num (50 + k)"
    using kb by (intro small_add) simp_all
  have carbon: "(if js_lt c (Num 1) then js_add (Num (50 + k)) (Num 20)
           else if js_lt c (Num 5) then js_add (Num (50 + k)) (Num 15)
           else if js_lt c (Num 10) then js_add (Num (50 + k)) (Num 10)
           else if js_gt c (Num 20) then js_sub (Num (50 + k)) (Num 15)
           else Num (50 + k)) = Num (50 + k + exclusive_carbon_band c)"
    using kb by (intro carbon_step) simp_all
  have water: "(if js_lt w (Num 10) then js_add (Num (50 + k + exclusive_carbon_band c)) (Num 15)
           else if js_lt w (Num 50) then js_add (Num (50 + k + exclusive_carbon_band c)) (Num 10)
           else if js_gt w (Num 100) then js_sub (Num (50 + k + exclusive_carbon_band c)) (Num 10)
           else Num (50 + k + exclusive_carbon_band c)) =
         Num (50 + k + exclusive_carbon_band c + exclusive_water_band w)"
    using kb cb by (intro water_step) simp_all
  note tail = green_tail [of "50 + k + exclusive_carbon_band c + exclusive_water_band w" r l]
  have tail': "Math_max (Num 0) (Math_min (Num 100)
      (if js_lt r (Num 2)
       then js_add (js_add (Num (50 + k + exclusive_carbon_band c + exclusive_water_band w))
         (js_mul (Num (of_nat l)) (Num 5))) (Num 10)
       else if js_lt r (Num 5)
       then js_add (js_add (Num (50 + k + exclusive_carbon_band c + exclusive_water_band w))
         (js_mul (Num (of_nat l)) (Num 5))) (Num 5)
       else if js_gt r (Num 15)
       then js_sub (js_add (Num (50 + k + exclusive_carbon_band c + exclusive_water_band w))
         (js_mul (Num (of_nat l)) (Num 5))) (Num 10)
       else js_add (Num (50 + k + exclusive_carbon_band c + exclusive_water_band w))
         (js_mul (Num (of_nat l)) (Num 5)))) =
    Num (max 0 (min 100 (50 + k + exclusive_carbon_band c + exclusive_water_band w +
      5 * of_nat l + exclusive_spoilage_band r)))"
    using kb cb wb by (intro tail) simp_all
  show ?thesis
    unfolding calculateGreenScore_def Let_def packaging_lookup
      k_def [symmetric] l_def [symmetric] c_def [symmetric] w_def [symmetric] r_def [symmetric]
    by (simp only: base carbon water tail')
qed

lemma certification_lookup:
  "or_else (case l of None \<Rightarrow> None | Some k \<Rightarrow> certScores k) 0 = spec_certification_bonus l"
proof (cases l)
  case None
  then show ?thesis by (simp add: or_else_def spec_certification_bonus_def)
next
  case (Some k)
  then show ?thesis
    by (cases k) (simp_all add: or_else_def spec_certification_bonus_def certScores_def)
qed

lemma spec_certification_bonus_bounds:
  "0 \<le> spec_certification_bonus l \<and> spec_certification_bonus l \<le> 40"
  by (simp add: spec_certification_bonus_def split: option.split certificationLevel.split)

lemma spec_certification_bonus_Ints: "spec_certification_bonus l \<in> \<int>"
  by (simp add: spec_certification_bonus_def split: option.split certificationLevel.split)

lemma esg_band_bounds:
  "0 \<le> esg_carbon_band c" "0 \<le> esg_waste_band w" "0 \<le> esg_renewable_band e"
  by (simp_all add: esg_carbon_band_def esg_waste_band_def esg_renewable_band_def)

lemma esg_band_range:
  "esg_carbon_band c \<in> \<int> \<and> esg_carbon_band c \<le> 20"
  "esg_waste_band w \<in> \<int> \<and> esg_waste_band w \<le> 20"
  "esg_renewable_band e \<in> \<int> \<and> esg_renewable_band e \<le> 20"
  by (simp_all add: esg_carbon_band_def esg_waste_band_def esg_renewable_band_def)

lemma bonus_step:
  assumes "x \<in> \<int>" and "\<bar>x\<bar> \<le> 1000"
  shows "(if b1 then js_add (Num x) (Num 20)
          else if b2 then js_add (Num x) (Num 15)
          else if b3 then js_add (Num x) (Num 10)
          else Num x) = Num (x + (if b1 then 20 else if b2 then 15 else if b3 then 10 else 0))"
proof -
  have a: "js_add (Num x) (Num 20) = Num (x + 20)" "js_add (Num x) (Num 15) = Num (x + 15)"
    "js_add (Num x) (Num 10) = Num (x + 10)"
    using assms by (simp_all add: small_add del: js_add.simps)
  show ?thesis unfolding a by simp
qed

lemma docs_step:
  assumes xi: "x \<in> \<int>" and x0: "0 \<le> x" and x1: "x \<le> 1000"
  shows "js_add (Num x) (Math_min (js_mul (Num (of_nat l)) (Num 5)) (Num 20)) =
    Num (x + min (of_nat l * 5) 20)"
proof (cases "l \<le> 10 ^ 9")
  case True
  then have "(of_nat l :: rat) \<le> of_nat (10 ^ 9)" by (simp only: of_nat_le_iff)
  then have l: "(of_nat l :: rat) \<le> 10 ^ 9" by simp
  have m: "js_mul (Num (of_nat l)) (Num 5) = Num (of_nat l * 5)"
    using l by (simp add: fl_Ints)
  have n: "Math_min (Num (of_nat l * 5)) (Num 20) = Num (min (of_nat l * 5) 20)"
    by (auto simp add: min_def)
  have i: "min (of_nat l * 5) (20 :: rat) \<in> \<int>" by (simp add: min_def)
  have s: "js_add (Num x) (Num (min (of_nat l * 5) 20)) = Num (x + min (of_nat l * 5) 20)"
    using xi i x0 x1 by (intro small_add) simp_all
  show ?thesis by (simp only: m n s)
next
  case False
  then have "(of_nat (10 ^ 9) :: rat) \<le> of_nat l" by (simp only: of_nat_le_iff)
  then have l: "(10 ^ 9 :: rat) \<le> of_nat l" by simp
  have e: "fl 20 = Num 20" using fl_int [of 20] by simp
  have "(20 :: rat) \<le> of_nat l * 5" using l by simp
  then have "js_le (Num 20) (js_mul (Num (of_nat l)) (Num 5))"
    using fl_mono [of 20 "of_nat l * 5"] e by simp
  then have m: "Math_min (js_mul (Num (of_nat l)) (Num 5)) (Num 20) = Num 20"
    by (cases "js_mul (Num (of_nat l)) (Num 5)") auto
  have r: "min (of_nat l * 5) (20 :: rat) = 20" using l by simp
  have s: "js_add (Num x) (Num 20) = Num (x + 20)"
    using xi x0 x1 by (intro small_add) simp_all
  show ?thesis by (simp only: m r s)
qed

lemma esg_score_closed_form:
  "calculateESGScore s =
     Num (min
       (0 + spec_certification_bonus (certificationLevel s) +
        esg_carbon_band (supplierCarbonFootprint (supplierSustainabilityMetrics s)) +
        esg_waste_band (wasteReduction (supplierSustainabilityMetrics s)) +
        esg_renewable_band (renewableEnergy (supplierSustainabilityMetrics s)) +
        min (of_nat (length (filter verified (auditDocs s))) * 5) 20)
       100)"
proof -
  define k where "k = spec_certification_bonus (certificationLevel s)"
  define l where "l = length (filter verified (auditDocs s))"
  define c where "c = supplierCarbonFootprint (supplierSustainabilityMetrics s)"
  define w where "w = wasteReduction (supplierSustainabilityMetrics s)"
  define e where "e = renewableEnergy (supplierSustainabilityMetrics s)"
  note kb = spec_certification_bonus_bounds [of "certificationLevel s", folded k_def]
    spec_certification_bonus_Ints [of "certificationLevel s", folded k_def]
  note bb = esg_band_bounds(1) [of c] esg_band_bounds(2) [of w] esg_band_bounds(3) [of e]
    esg_band_range(1) [of c] esg_band_range(2) [of w] esg_band_range(3) [of e]
  have base: "js_add (Num 0) (Num k) = Num (0 + k)"
    using kb by (intro small_add) simp_all
  have carbon: "(if js_lt c (Num 10) then js_add (Num (0 + k)) (Num 20)
           else if js_lt c (Num 25) then js_add (Num (0 + k)) (Num 15)
           else if js_lt c (Num 50) then js_add (Num (0 + k)) (Num 10)
           else Num (0 + k)) = Num (0 + k + esg_carbon_band c)"
    unfolding esg_carbon_band_def using kb by (intro bonus_step) simp_all
  have waste: "(if js_gt w (Num 50) then js_add (Num (0 + k + esg_carbon_band c)) (Num 20)
           else if js_gt w (Num 25) then js_add (Num (0 + k + esg_carbon_band c)) (Num 15)
           else if js_gt w (Num 10) then js_add (Num (0 + k + esg_carbon_band c)) (Num 10)
           else Num (0 + k + esg_carbon_band c)) =
         Num (0 + k + esg_carbon_band c + esg_waste_band w)"
    unfolding esg_waste_band_def [of w] using kb bb by (intro bonus_step) simp_all
  have renewable: "(if js_gt e (Num 80)
           then js_add (Num (0 + k + esg_carbon_band c + esg_waste_band w)) (Num 20)
           else if js_gt e (Num 50)
           then js_add (Num (0 + k + esg_carbon_band c + esg_waste_band w)) (Num 15)
           else if js_gt e (Num 20)
           then js_add (Num (0 + k + esg_carbon_band c + esg_waste_band w)) (Num 10)
           else Num (0 + k + esg_carbon_band c + esg_waste_band w)) =
         Num (0 + k + esg_carbon_band c + esg_waste_band w + esg_renewable_band e)"
    unfolding esg_renewable_band_def [of e] using kb bb by (intro bonus_step) simp_all
  have docs: "js_add (Num (0 + k + esg_carbon_band c + esg_waste_band w + esg_renewable_band e))
        (Math_min (js_mul (Num (of_nat l)) (Num 5)) (Num 20)) =
      Num (0 + k + esg_carbon_band c + esg_waste_band w + esg_renewable_band e +
        min (of_nat l * 5) 20)"
    using kb bb by (intro docs_step) simp_all
  have final: "Math_min (Num x) (Num 100) = Num (min x 100)" for x
    by (auto simp add: min_def)
  show ?thesis
    unfolding calculateESGScore_def Let_def certification_lookup
      k_def [symmetric] l_def [symmetric] c_def [symmetric] w_def [symmetric] e_def [symmetric]
    by (simp only: base carbon waste renewable docs final)
qed

text \<open>
  Claim C5. For every product and every supplier, whatever the values of the metrics and
  however many certifications or documents there are, the green score and the ESG score
  are numbers between 0 and 100. The product with minimal packaging, carbon footprint 0.5,
  water footprint 5, one certification and spoilage rate 1 has green score 100, and so has
  a product with 1000 certifications.
\<close>

theorem scores_within_0_100:
  "(\<exists>g. calculateGreenScore p = Num g \<and> 0 \<le> g \<and> g \<le> 100) \<and>
   (\<exists>e. calculateESGScore s = Num e \<and> 0 \<le> e \<and> e \<le> 100) \<and>
   calculateGreenScore
     \<lparr>packagingType = Some Minimal,
      sustainabilityMetrics =
        \<lparr>carbonFootprint = Num (5 / 10), waterFootprint = Num 5, greenScore = Num 50\<rparr>,
      certifications = [Organic], baseSpoilageRate = Num 1\<rparr> = Num 100 \<and>
   calculateGreenScore
     \<lparr>packagingType = Some Plastic,
      sustainabilityMetrics =
        \<lparr>carbonFootprint = Num (- 1000000), waterFootprint = Num 1000000, greenScore = Num 50\<rparr>,
      certifications = replicate 1000 Vegan, baseSpoilageRate = Num 50\<rparr> = Num 100"
proof (intro conjI)
  show "\<exists>g. calculateGreenScore p = Num g \<and> 0 \<le> g \<and> g \<le> 100"
    unfolding green_score_closed_form by simp
next
  have "0 \<le> min (of_nat (length (filter verified (auditDocs s))) * 5) (20 :: rat)"
    by simp
  then have "0 \<le> 0 + spec_certification_bonus (certificationLevel s) +
        esg_carbon_band (supplierCarbonFootprint (supplierSustainabilityMetrics s)) +
        esg_waste_band (wasteReduction (supplierSustainabilityMetrics s)) +
        esg_renewable_band (renewableEnergy (supplierSustainabilityMetrics s)) +
        min (of_nat (length (filter verified (auditDocs s))) * 5) 20"
    using spec_certification_bonus_bounds [of "certificationLevel s"]
      esg_band_bounds(1) [of "supplierCarbonFootprint (supplierSustainabilityMetrics s)"]
      esg_band_bounds(2) [of "wasteReduction (supplierSustainabilityMetrics s)"]
      esg_band_bounds(3) [of "renewableEnergy (supplierSustainabilityMetrics s)"]
    by linarith
  then show "\<exists>e. calculateESGScore s = Num e \<and> 0 \<le> e \<and> e \<le> 100"
    unfolding esg_score_closed_form by simp
next
  show "calculateGreenScore
     \<lparr>packagingType = Some Minimal,
      sustainabilityMetrics =
        \<lparr>carbonFootprint = Num (5 / 10), waterFootprint = Num 5, greenScore = Num 50\<rparr>,
      certifications = [Organic], baseSpoilageRate = Num 1\<rparr> = Num 100"
    unfolding green_score_closed_form
    by (simp add: spec_packaging_def exclusive_carbon_band_def exclusive_water_band_def
        exclusive_spoilage_band_def)
next
  show "calculateGreenScore
     \<lparr>packagingType = Some Plastic,
      sustainabilityMetrics =
        \<lparr>carbonFootprint = Num (- 1000000), waterFootprint = Num 1000000, greenScore = Num 50\<rparr>,
      certifications = replicate 1000 Vegan, baseSpoilageRate = Num 50\<rparr> = Num 100"
    unfolding green_score_closed_form
    by (simp add: spec_packaging_def exclusive_carbon_band_def exclusive_water_band_def
        exclusive_spoilage_band_def js_gt_def)
qed

text \<open>
  Claim C3, as amended. The green score starts at 50 and adds the packaging adjustment, one
  adjustment for each of carbon footprint, water footprint and spoilage rate, and 5 per
  certification, and is then clamped to 0..100. Within a metric the bands are exclusive and
  tried in the stated order: only the first band whose condition holds contributes (a
  carbon footprint below 1 adds 20 and nothing else).
\<close>

theorem green_score_exclusive_bands:
  "calculateGreenScore p =
     Num (max 0 (min 100
       (50 + spec_packaging (packagingType p) +
        exclusive_carbon_band (carbonFootprint (sustainabilityMetrics p)) +
        exclusive_water_band (waterFootprint (sustainabilityMetrics p)) +
        5 * of_nat (length (certifications p)) +
        exclusive_spoilage_band (baseSpoilageRate p)))) \<and>
   exclusive_carbon_band (Num c) =
     (if c < 1 then 20 else if c < 5 then 15 else if c < 10 then 10
      else if 20 < c then - 15 else 0) \<and>
   exclusive_water_band (Num w) =
     (if w < 10 then 15 else if w < 50 then 10 else if 100 < w then - 10 else 0) \<and>
   exclusive_spoilage_band (Num r) =
     (if r < 2 then 10 else if r < 5 then 5 else if 15 < r then - 10 else 0)"
proof (intro conjI)
  show "calculateGreenScore p =
     Num (max 0 (min 100
       (50 + spec_packaging (packagingType p) +
        exclusive_carbon_band (carbonFootprint (sustainabilityMetrics p)) +
        exclusive_water_band (waterFootprint (sustainabilityMetrics p)) +
        5 * of_nat (length (certifications p)) +
        exclusive_spoilage_band (baseSpoilageRate p))))"
    by (rule green_score_closed_form)
next
  show "exclusive_carbon_band (Num c) =
     (if c < 1 then 20 else if c < 5 then 15 else if c < 10 then 10
      else if 20 < c then - 15 else 0)"
    by (simp add: exclusive_carbon_band_def js_gt_def)
next
  show "exclusive_water_band (Num w) =
     (if w < 10 then 15 else if w < 50 then 10 else if 100 < w then - 10 else 0)"
    by (simp add: exclusive_water_band_def js_gt_def)
next
  show "exclusive_spoilage_band (Num r) =
     (if r < 2 then 10 else if r < 5 then 5 else if 15 < r then - 10 else 0)"
    by (simp add: exclusive_spoilage_band_def js_gt_def)
qed

theorem green_score_exclusive_bands_witness:
  "calculateGreenScore
     \<lparr>packagingType = Some Plastic,
      sustainabilityMetrics =
        \<lparr>carbonFootprint = Num (5 / 10), waterFootprint = Num 75, greenScore = Num 50\<rparr>,
      certifications = [], baseSpoilageRate = Num 10\<rparr> = Num 60"
  using green_score_exclusive_bands
    [of "\<lparr>packagingType = Some Plastic,
      sustainabilityMetrics =
        \<lparr>carbonFootprint = Num (5 / 10), waterFootprint = Num 75, greenScore = Num 50\<rparr>,
      certifications = [], baseSpoilageRate = Num 10\<rparr>" "5 / 10" 75 10]
  by (simp add: spec_packaging_def)

text \<open>
  With plastic packaging, carbon footprint 0.5, water footprint 75, no certification and
  spoilage rate 10 the green score is 50 - 10 + 20 = 60; layered bands would give
  50 - 10 + 20 + 15 + 10 = 85.
\<close>

theorem green_score_layered_counterexample:
  "calculateGreenScore
     \<lparr>packagingType = Some Plastic,
      sustainabilityMetrics =
        \<lparr>carbonFootprint = Num (5 / 10), waterFootprint = Num 75, greenScore = Num 50\<rparr>,
      certifications = [], baseSpoilageRate = Num 10\<rparr> = Num 60 \<and>
   claimed_layered_green_score
     \<lparr>packagingType = Some Plastic,
      sustainabilityMetrics =
        \<lparr>carbonFootprint = Num (5 / 10), waterFootprint = Num 75, greenScore = Num 50\<rparr>,
      certifications = [], baseSpoilageRate = Num 10\<rparr> = Num 85"
  by (simp add: green_score_closed_form claimed_layered_green_score_def spec_packaging_def
      exclusive_carbon_band_def exclusive_water_band_def exclusive_spoilage_band_def
      layered_carbon_band_def layered_water_band_def layered_spoilage_band_def js_gt_def)

section \<open>Properties of the waste risk classifier\<close>

lemma risk_level_adjusted:
  assumes "predictedWastePercentage a = Num w" and "confidence a = Num c"
  shows "calculateRiskLevel a =
    (if js_ge (adjusted_risk w c) (Num 30) then Critical
     else if js_ge (adjusted_risk w c) (Num 20) then High
     else if js_ge (adjusted_risk w c) (Num 10) then Medium
     else Low)"
  using assms by (simp add: calculateRiskLevel_def adjusted_risk_def Let_def)

text \<open>For a confidence between 0 and 100 the quotient by 100 is a number between 0 and 1.\<close>

lemma confidence_quotient:
  assumes "0 \<le> c" and "c \<le> 100"
  shows "js_div (Num c) (Num 100) = Num (nearest (c / 100)) \<and>
    0 \<le> nearest (c / 100) \<and> nearest (c / 100) \<le> 1"
proof -
  have one: "nearest 1 = 1" using nearest_int [of 1] by simp
  have lo: "0 \<le> nearest (c / 100)" using assms by (intro nearest_nonneg) simp
  have hi: "nearest (c / 100) \<le> 1" using nearest_mono [of "c / 100" 1] assms by (simp add: one)
  have "(1 :: rat) < overflow_threshold" by (simp add: overflow_threshold_def)
  then have "\<bar>nearest (c / 100)\<bar> < overflow_threshold" using lo hi by simp
  then show ?thesis using lo hi by (simp add: fl_finite)
qed

lemma adjusted_risk_finite:
  assumes "0 \<le> w" and "w \<le> 100" and "0 \<le> c" and "c \<le> 100"
  shows "\<exists>r. adjusted_risk w c = Num r"
proof -
  define t where "t = nearest (c / 100)"
  have t: "js_div (Num c) (Num 100) = Num t" "0 \<le> t" "t \<le> 1"
    using confidence_quotient [OF assms(3,4)] by (simp_all add: t_def)
  have hundred: "nearest 100 = 100" using nearest_int [of 100] by simp
  have "w * t \<le> 100 * 1" using assms t by (intro mult_mono) simp_all
  then have hi: "nearest (w * t) \<le> 100" using nearest_mono [of "w * t" 100] by (simp add: hundred)
  have lo: "0 \<le> nearest (w * t)" using assms t by (intro nearest_nonneg) simp
  have "(100 :: rat) < overflow_threshold" by (simp add: overflow_threshold_def)
  then have "\<bar>nearest (w * t)\<bar> < overflow_threshold" using lo hi by simp
  then have "fl (w * t) = Num (nearest (w * t))" by (rule fl_finite)
  then show ?thesis unfolding adjusted_risk_def t(1) by simp
qed

lemma threshold_mono:
  assumes "js_le x y"
  shows "severity (if js_ge x (Num 30) then Critical else if js_ge x (Num 20) then High
      else if js_ge x (Num 10) then Medium else Low)
    \<le> severity (if js_ge y (Num 30) then Critical else if js_ge y (Num 20) then High
      else if js_ge y (Num 10) then Medium else Low)"
  using assms by (cases x; cases y) auto

lemma lit_29_9: "lit (299 / 10) = 4208050901824307 / 140737488355328"
  using nearest_eval [of 4 "299 / 10"] by (simp add: lit_def rne_def floor_rat_numeral)

lemma adjusted_29_9: "adjusted_risk (lit (299 / 10)) 100 = Num (lit (299 / 10))"
proof -
  have s1: "js_div (Num 100) (Num 100) = Num 1" using fl_int [of 1] by simp
  have "js_mul (Num (lit (299 / 10))) (Num 1) = fl (4208050901824307 / 140737488355328)"
    by (simp only: js_mul.simps lit_29_9 mult_1_right)
  also have "\<dots> = Num (4208050901824307 / 140737488355328)"
    using fl_eval [of 4 "4208050901824307 / 140737488355328"]
    by (simp add: rne_def floor_rat_numeral)
  finally have s2: "js_mul (Num (lit (299 / 10))) (Num 1) = Num (lit (299 / 10))"
    by (simp only: lit_29_9)
  show ?thesis by (simp only: adjusted_risk_def s1 s2)
qed

lemma adjusted_30: "adjusted_risk 30 100 = Num 30"
proof -
  have s1: "js_div (Num 100) (Num 100) = Num 1" using fl_int [of 1] by simp
  have s2: "js_mul (Num 30) (Num 1) = Num 30" using fl_int [of 30] by simp
  show ?thesis by (simp only: adjusted_risk_def s1 s2)
qed

lemma adjusted_40_30: "adjusted_risk 40 30 = Num 12"
proof -
  have s1: "js_div (Num 30) (Num 100) = Num (5404319552844595 / 18014398509481984)"
    using fl_eval [of "- 2" "30 / 100"] by (simp add: rne_def floor_rat_numeral)
  have s2: "js_mul (Num 40) (Num (5404319552844595 / 18014398509481984)) = Num 12"
    using fl_eval [of 3 "40 * (5404319552844595 / 18014398509481984)"]
    by (simp add: rne_def floor_rat_numeral)
  show ?thesis by (simp only: adjusted_risk_def s1 s2)
qed

lemma adjusted_25_80: "adjusted_risk 25 80 = Num 20"
proof -
  have s1: "js_div (Num 80) (Num 100) = Num (3602879701896397 / 4503599627370496)"
    using fl_eval [of "- 1" "80 / 100"] by (simp add: rne_def floor_rat_numeral)
  have s2: "js_mul (Num 25) (Num (3602879701896397 / 4503599627370496)) = Num 20"
    using fl_eval [of 4 "25 * (3602879701896397 / 4503599627370496)"]
    by (simp add: rne_def floor_rat_numeral)
  show ?thesis by (simp only: adjusted_risk_def s1 s2)
qed

lemma adjusted_rounds_up:
  "adjusted_risk (7036874417766399 / 70368744177664) 10 = Num 10"
proof -
  have s1: "js_div (Num 10) (Num 100) = Num (3602879701896397 / 36028797018963968)"
    using fl_eval [of "- 4" "10 / 100"] by (simp add: rne_def floor_rat_numeral)
  have s2: "js_mul (Num (7036874417766399 / 70368744177664))
      (Num (3602879701896397 / 36028797018963968)) = Num 10"
    using fl_eval [of 3
        "7036874417766399 / 70368744177664 * (3602879701896397 / 36028797018963968)"]
    by (simp add: rne_def floor_rat_numeral)
  show ?thesis by (simp only: adjusted_risk_def s1 s2)
qed

text \<open>
  Claim C4, as amended. For a predicted waste percentage and a confidence between 0 and
  100, the adjusted risk, computed in binary64 as the percentage times the quotient of
  confidence by 100, is a number, and the risk level is a step function of it: critical
  exactly from 30 on, high exactly from 20 to below 30, medium exactly from 10 to below
  20, low below 10. A computed adjusted risk of 29.9 gives high and one of 30 gives
  critical.
\<close>

theorem risk_level_step_function:
  "(predictedWastePercentage a = Num w \<and> confidence a = Num c \<and>
    0 \<le> w \<and> w \<le> 100 \<and> 0 \<le> c \<and> c \<le> 100 \<longrightarrow>
      (\<exists>r. adjusted_risk w c = Num r \<and>
        (calculateRiskLevel a = Critical \<longleftrightarrow> 30 \<le> r) \<and>
        (calculateRiskLevel a = High \<longleftrightarrow> 20 \<le> r \<and> r < 30) \<and>
        (calculateRiskLevel a = Medium \<longleftrightarrow> 10 \<le> r \<and> r < 20) \<and>
        (calculateRiskLevel a = Low \<longleftrightarrow> r < 10))) \<and>
   adjusted_risk (lit (299 / 10)) 100 = Num (lit (299 / 10)) \<and>
   calculateRiskLevel \<lparr>predictedWasteQty = Num 0, currentStock = Num 0,
      predictedWastePercentage = Num (lit (299 / 10)), riskLevel = Low, confidence = Num 100,
      status = Active\<rparr> = High \<and>
   adjusted_risk 30 100 = Num 30 \<and>
   calculateRiskLevel \<lparr>predictedWasteQty = Num 0, currentStock = Num 0,
      predictedWastePercentage = Num 30, riskLevel = Low, confidence = Num 100,
      status = Active\<rparr> = Critical"
proof (intro conjI impI)
  assume h: "predictedWastePercentage a = Num w \<and> confidence a = Num c \<and>
    0 \<le> w \<and> w \<le> 100 \<and> 0 \<le> c \<and> c \<le> 100"
  then obtain r where r: "adjusted_risk w c = Num r"
    using adjusted_risk_finite [of w c] by auto
  have eq: "calculateRiskLevel a =
    (if 30 \<le> r then Critical else if 20 \<le> r then High else if 10 \<le> r then Medium else Low)"
    using h risk_level_adjusted [of a w c] by (simp add: r not_less)
  show "\<exists>r. adjusted_risk w c = Num r \<and>
        (calculateRiskLevel a = Critical \<longleftrightarrow> 30 \<le> r) \<and>
        (calculateRiskLevel a = High \<longleftrightarrow> 20 \<le> r \<and> r < 30) \<and>
        (calculateRiskLevel a = Medium \<longleftrightarrow> 10 \<le> r \<and> r < 20) \<and>
        (calculateRiskLevel a = Low \<longleftrightarrow> r < 10)"
  proof (intro exI [of _ r] conjI)
    show "adjusted_risk w c = Num r" by (rule r)
    show "calculateRiskLevel a = Critical \<longleftrightarrow> 30 \<le> r" unfolding eq by simp
    show "calculateRiskLevel a = High \<longleftrightarrow> 20 \<le> r \<and> r < 30" unfolding eq by auto
    show "calculateRiskLevel a = Medium \<longleftrightarrow> 10 \<le> r \<and> r < 20" unfolding eq by auto
    show "calculateRiskLevel a = Low \<longleftrightarrow> r < 10" unfolding eq by auto
  qed
next
  show "adjusted_risk (lit (299 / 10)) 100 = Num (lit (299 / 10))" by (rule adjusted_29_9)
next
  let ?a = "\<lparr>predictedWasteQty = Num 0, currentStock = Num 0,
      predictedWastePercentage = Num (lit (299 / 10)), riskLevel = Low, confidence = Num 100,
      status = Active\<rparr>"
  have "calculateRiskLevel ?a =
    (if js_ge (adjusted_risk (lit (299 / 10)) 100) (Num 30) then Critical
     else if js_ge (adjusted_risk (lit (299 / 10)) 100) (Num 20) then High
     else if js_ge (adjusted_risk (lit (299 / 10)) 100) (Num 10) then Medium
     else Low)"
    by (rule risk_level_adjusted) simp_all
  then show "calculateRiskLevel ?a = High"
    unfolding adjusted_29_9 by (simp add: lit_29_9)
next
  show "adjusted_risk 30 100 = Num 30" by (rule adjusted_30)
next
  let ?a = "\<lparr>predictedWasteQty = Num 0, currentStock = Num 0,
      predictedWastePercentage = Num 30, riskLevel = Low, confidence = Num 100,
      status = Active\<rparr>"
  show "calculateRiskLevel ?a = Critical"
    using risk_level_adjusted [of ?a 30 100] by (simp add: adjusted_30)
qed

theorem risk_level_step_function_witness:
  "(0 :: rat) \<le> 40 \<and> (40 :: rat) \<le> 100 \<and> (0 :: rat) \<le> 30 \<and> (30 :: rat) \<le> 100 \<and>
   adjusted_risk 40 30 = Num 12 \<and>
   calculateRiskLevel \<lparr>predictedWasteQty = Num 7, currentStock = Num 90,
      predictedWastePercentage = Num 40, riskLevel = Low, confidence = Num 30,
      status = Active\<rparr> = Medium"
  using risk_level_step_function
    [of "\<lparr>predictedWasteQty = Num 7, currentStock = Num 90,
      predictedWastePercentage = Num 40, riskLevel = Low, confidence = Num 30,
      status = Active\<rparr>" 40 30]
  by (simp add: adjusted_40_30)

text \<open>
  The step function is not one of the exact product. For the percentage
  99.99999999999999 and confidence 10 the exact product is below 10, but the binary64
  product is exactly 10 and the level is medium, not low.
\<close>

theorem risk_level_step_function_counterexample:
  "calculateRiskLevel \<lparr>predictedWasteQty = Num 0, currentStock = Num 0,
      predictedWastePercentage = Num (7036874417766399 / 70368744177664), riskLevel = Low,
      confidence = Num 10, status = Active\<rparr> = Medium \<and>
   (7036874417766399 / 70368744177664 :: rat) * (10 / 100) < 10 \<and>
   (0 :: rat) \<le> 7036874417766399 / 70368744177664 \<and>
   (7036874417766399 / 70368744177664 :: rat) \<le> 100 \<and>
   lit (9999999999999999 / 100000000000000) = 7036874417766399 / 70368744177664"
proof (intro conjI)
  let ?a = "\<lparr>predictedWasteQty = Num 0, currentStock = Num 0,
      predictedWastePercentage = Num (7036874417766399 / 70368744177664), riskLevel = Low,
      confidence = Num 10, status = Active\<rparr>"
  show "calculateRiskLevel ?a = Medium"
    using risk_level_adjusted [of ?a "7036874417766399 / 70368744177664" 10]
    by (simp add: adjusted_rounds_up)
  show "lit (9999999999999999 / 100000000000000) = 7036874417766399 / 70368744177664"
    using nearest_eval [of 6 "9999999999999999 / 100000000000000"]
    by (simp add: lit_def rne_def floor_rat_numeral)
qed simp_all

text \<open>
  Claim C10. The risk level is monotone in both inputs. With the waste percentage fixed
  and not negative, raising the confidence within 0..100 never lowers the severity of the
  level; with the confidence fixed in 0..100, raising the waste percentage never lowers
  it.
\<close>

theorem risk_level_monotone:
  "(predictedWastePercentage a = Num w \<and> 0 \<le> w \<and> confidence a = Num c1 \<and>
    0 \<le> c1 \<and> c1 \<le> c2 \<and> c2 \<le> 100 \<longrightarrow>
      severity (calculateRiskLevel a) \<le> severity (calculateRiskLevel (a\<lparr>confidence := Num c2\<rparr>))) \<and>
   (confidence a = Num c \<and> 0 \<le> c \<and> c \<le> 100 \<and> predictedWastePercentage a = Num w1 \<and> w1 \<le> w2 \<longrightarrow>
      severity (calculateRiskLevel a) \<le>
      severity (calculateRiskLevel (a\<lparr>predictedWastePercentage := Num w2\<rparr>)))"
proof (intro conjI impI)
  assume h: "predictedWastePercentage a = Num w \<and> 0 \<le> w \<and> confidence a = Num c1 \<and>
    0 \<le> c1 \<and> c1 \<le> c2 \<and> c2 \<le> 100"
  define t1 where "t1 = nearest (c1 / 100)"
  define t2 where "t2 = nearest (c2 / 100)"
  have q1: "js_div (Num c1) (Num 100) = Num t1" and q2: "js_div (Num c2) (Num 100) = Num t2"
    using h confidence_quotient [of c1] confidence_quotient [of c2] by (simp_all add: t1_def t2_def)
  have "c1 / 100 \<le> c2 / 100" using h by simp
  then have "t1 \<le> t2" unfolding t1_def t2_def by (rule nearest_mono)
  then have "w * t1 \<le> w * t2" using h by (intro mult_left_mono) simp_all
  then have "js_le (fl (w * t1)) (fl (w * t2))" by (rule fl_mono)
  then have le: "js_le (adjusted_risk w c1) (adjusted_risk w c2)"
    unfolding adjusted_risk_def q1 q2 by simp
  show "severity (calculateRiskLevel a) \<le>
      severity (calculateRiskLevel (a\<lparr>confidence := Num c2\<rparr>))"
    using h risk_level_adjusted [of a w c1]
      risk_level_adjusted [of "a\<lparr>confidence := Num c2\<rparr>" w c2] threshold_mono [OF le]
    by simp
next
  assume h: "confidence a = Num c \<and> 0 \<le> c \<and> c \<le> 100 \<and> predictedWastePercentage a = Num w1 \<and>
    w1 \<le> w2"
  define t where "t = nearest (c / 100)"
  have q: "js_div (Num c) (Num 100) = Num t" and t: "0 \<le> t"
    using h confidence_quotient [of c] by (simp_all add: t_def)
  have "w1 * t \<le> w2 * t" using h t by (intro mult_right_mono) simp_all
  then have "js_le (fl (w1 * t)) (fl (w2 * t))" by (rule fl_mono)
  then have le: "js_le (adjusted_risk w1 c) (adjusted_risk w2 c)"
    unfolding adjusted_risk_def q by simp
  show "severity (calculateRiskLevel a) \<le>
      severity (calculateRiskLevel (a\<lparr>predictedWastePercentage := Num w2\<rparr>))"
    using h risk_level_adjusted [of a w1 c]
      risk_level_adjusted [of "a\<lparr>predictedWastePercentage := Num w2\<rparr>" w2 c]
      threshold_mono [OF le]
    by simp
qed

theorem risk_level_monotone_witness:
  "severity (calculateRiskLevel \<lparr>predictedWasteQty = Num 7, currentStock = Num 90,
      predictedWastePercentage = Num 40, riskLevel = Low, confidence = Num 30,
      status = Active\<rparr>) \<le>
   severity (calculateRiskLevel \<lparr>predictedWasteQty = Num 7, currentStock = Num 90,
      predictedWastePercentage = Num 40, riskLevel = Low, confidence = Num 80,
      status = Active\<rparr>) \<and>
   severity (calculateRiskLevel \<lparr>predictedWasteQty = Num 7, currentStock = Num 90,
      predictedWastePercentage = Num 40, riskLevel = Low, confidence = Num 30,
      status = Active\<rparr>) \<le>
   severity (calculateRiskLevel \<lparr>predictedWasteQty = Num 7, currentStock = Num 90,
      predictedWastePercentage = Num 70, riskLevel = Low, confidence = Num 30,
      status = Active\<rparr>)"
  using risk_level_monotone
    [of "\<lparr>predictedWasteQty = Num 7, currentStock = Num 90,
      predictedWastePercentage = Num 40, riskLevel = Low, confidence = Num 30,
      status = Active\<rparr>" 40 30 80 30 40 70]
  by simp

text \<open>
  Claim C8. The list of recommendations has at most three entries, one for each condition
  that holds: Discount Pricing, with estimated savings 5 times the predicted waste
  quantity, exactly when the predicted waste percentage exceeds 20; Transfer to Other
  Stores, with 3 times, exactly when the current stock exceeds twice the predicted waste
  quantity; Promotional Campaign, with 4 times, exactly when the percentage exceeds 15.
  The alert with percentage 25, confidence 80, stock 50 and predicted waste quantity 20 has
  risk level high and all three recommendations.
\<close>

theorem recommendations_by_condition:
  "length (generateRecommendations a) \<le> 3 \<and>
   length (generateRecommendations a) =
     (if js_gt (predictedWastePercentage a) (Num 20) then 1 else 0) +
     (if js_gt (currentStock a) (js_mul (predictedWasteQty a) (Num 2)) then 1 else 0) +
     (if js_gt (predictedWastePercentage a) (Num 15) then 1 else 0) \<and>
   ((\<exists>r \<in> set (generateRecommendations a). action r = ''Discount Pricing'') \<longleftrightarrow>
      js_gt (predictedWastePercentage a) (Num 20)) \<and>
   ((\<exists>r \<in> set (generateRecommendations a). action r = ''Transfer to Other Stores'') \<longleftrightarrow>
      js_gt (currentStock a) (js_mul (predictedWasteQty a) (Num 2))) \<and>
   ((\<exists>r \<in> set (generateRecommendations a). action r = ''Promotional Campaign'') \<longleftrightarrow>
      js_gt (predictedWastePercentage a) (Num 15)) \<and>
   (\<forall>r \<in> set (generateRecommendations a).
      (action r = ''Discount Pricing'' \<longrightarrow>
         estimatedSavings r = js_mul (predictedWasteQty a) (Num 5)) \<and>
      (action r = ''Transfer to Other Stores'' \<longrightarrow>
         estimatedSavings r = js_mul (predictedWasteQty a) (Num 3)) \<and>
      (action r = ''Promotional Campaign'' \<longrightarrow>
         estimatedSavings r = js_mul (predictedWasteQty a) (Num 4))) \<and>
   calculateRiskLevel \<lparr>predictedWasteQty = Num 20, currentStock = Num 50,
      predictedWastePercentage = Num 25, riskLevel = Low, confidence = Num 80,
      status = Active\<rparr> = High \<and>
   map action (generateRecommendations \<lparr>predictedWasteQty = Num 20, currentStock = Num 50,
      predictedWastePercentage = Num 25, riskLevel = Low, confidence = Num 80,
      status = Active\<rparr>) =
     [''Discount Pricing'', ''Transfer to Other Stores'', ''Promotional Campaign'']"
proof -
  let ?a = "\<lparr>predictedWasteQty = Num 20, currentStock = Num 50,
      predictedWastePercentage = Num 25, riskLevel = Low, confidence = Num 80,
      status = Active\<rparr>"
  have forty: "fl 40 = Num 40" using fl_int [of 40] by simp
  have level: "calculateRiskLevel ?a = High"
    using risk_level_adjusted [of ?a 25 80] by (simp add: adjusted_25_80)
  have actions: "map action (generateRecommendations ?a) =
     [''Discount Pricing'', ''Transfer to Other Stores'', ''Promotional Campaign'']"
    by (simp add: generateRecommendations_def js_gt_def Let_def forty)
  show ?thesis
    unfolding level actions
    by (simp add: generateRecommendations_def js_gt_def Let_def)
qed

theorem recommendations_by_condition_witness:
  "js_gt (Num 25) (Num 20) \<and>
   (\<exists>r \<in> set (generateRecommendations \<lparr>predictedWasteQty = Num 20, currentStock = Num 50,
      predictedWastePercentage = Num 25, riskLevel = Low, confidence = Num 80,
      status = Active\<rparr>).
      action r = ''Discount Pricing'' \<and> estimatedSavings r = Num 100)"
proof -
  have hundred: "fl 100 = Num 100" using fl_int [of 100] by simp
  show ?thesis
    using recommendations_by_condition
      [of "\<lparr>predictedWasteQty = Num 20, currentStock = Num 50,
        predictedWastePercentage = Num 25, riskLevel = Low, confidence = Num 80,
        status = Active\<rparr>"]
    by (auto simp add: js_gt_def hundred)
qed

section \<open>Properties of the aggregate sustainability scorer\<close>

text \<open>
  Claim C7. The empty populations are scored asymmetrically: no shipments give carbon
  score 0, no alerts give waste score 100, and no suppliers and no products give 0.
\<close>

theorem empty_population_scores:
  "calculateCarbonScore [] = Num 0 \<and> calculateWasteScore [] = Num 100 \<and>
   calculateSupplierScore [] = Num 0 \<and> calculateProductScore [] = Num 0"
  by (simp add: calculateCarbonScore_def calculateWasteScore_def calculateSupplierScore_def
      calculateProductScore_def)

text \<open>
  Without an active alert the critical rate is \<open>0 / 0\<close>, and the waste score of a
  population that is not empty is \<open>NaN\<close>: \<open>Math.min\<close> and \<open>Math.max\<close> pass it through.
\<close>

lemma waste_score_no_active:
  assumes "alerts \<noteq> []" and "filter (\<lambda>alert. status alert = Active) alerts = []"
  shows "calculateWasteScore alerts = NaN"
proof -
  have "js_sub x (js_mul NaN (Num 30)) = NaN" for x
    by (cases x) (simp_all add: js_sub_def)
  then show ?thesis using assms by (simp add: calculateWasteScore_def Let_def)
qed

text \<open>
  Claim C2 says that the waste score of every population that is not empty is a number
  between 0 and 100, also when no alert is active. The code gives \<open>NaN\<close> there: for the
  population of one resolved alert, where the claim's formula gives 100.
\<close>

theorem waste_score_all_resolved_nan:
  "calculateWasteScore [\<lparr>predictedWasteQty = Num 5, currentStock = Num 40,
      predictedWastePercentage = Num 12, riskLevel = Medium, confidence = Num 75,
      status = Resolved\<rparr>] = NaN"
  by (simp add: waste_score_no_active)

end
